theory Spec2Isabelle
  imports Complex_Main
begin

section \<open>Application state (state.js, class AppState)\<close>

text \<open>
  Races and boats are the JSON objects the API returns. Only the fields the client reads
  are kept. Identifiers are JSON integers.
\<close>

record race =
  id_race :: int
  name_race :: string
  start_time :: string

record boat =
  id_boat :: int
  sail_no :: string
  label_color :: string

text \<open>The value passed to the handlers of an event.\<close>

datatype payload =
    PRaces "race list"
  | PRaceId "int option"
  | PBoats "boat list"
  | PBoatIds "int list"

text \<open>
  The fields of \<open>AppState\<close>. \<open>selectedRaceId\<close> is \<open>null\<close> (\<open>None\<close>) or a number.
  \<open>selectedBoats\<close> is a JavaScript \<open>Set\<close>: its elements are distinct and are iterated in
  insertion order, so it is a list without duplicates. \<open>listeners\<close> is the \<open>Map\<close> from
  event names to arrays of handlers; handlers are closures, represented by identifiers of
  type \<open>'h\<close>.
\<close>

record 'h app_state =
  races :: "race list"
  boats :: "boat list"
  selectedRaceId :: "int option"
  selectedBoats :: "int list"
  listeners :: "string \<rightharpoonup> 'h list"

text \<open>
  What calling a handler does: a handler may call back into the state object, so it maps
  the state to a new state, and it reports the handler calls made by the emits it caused.
\<close>

type_synonym 'h call = "'h \<times> payload"

type_synonym 'h behaviour = "'h \<Rightarrow> payload \<Rightarrow> 'h app_state \<Rightarrow> 'h call list \<times> 'h app_state"

definition constructor :: "'h app_state" where
  "constructor = \<lparr>races = [], boats = [], selectedRaceId = None, selectedBoats = [],
     listeners = Map.empty\<rparr>"

definition on :: "string \<Rightarrow> 'h \<Rightarrow> 'h app_state \<Rightarrow> 'h app_state" where
  "on event handler st =
     (let current = (case listeners st event of None \<Rightarrow> [] | Some hs \<Rightarrow> hs)
      in st\<lparr>listeners := (listeners st)(event \<mapsto> current @ [handler])\<rparr>)"

text \<open>
  \<open>handlers.forEach\<close> visits the handlers that are in the array when it starts, in order;
  each one runs on the state its predecessors left.
\<close>

fun forEach_handler :: "'h behaviour \<Rightarrow> 'h list \<Rightarrow> payload \<Rightarrow> 'h app_state
    \<Rightarrow> 'h call list \<times> 'h app_state" where
  "forEach_handler run [] p st = ([], st)"
| "forEach_handler run (h # hs) p st =
     (let (nested, st1) = run h p st;
          (rest, st2) = forEach_handler run hs p st1
      in ((h, p) # nested @ rest, st2))"

definition emit :: "'h behaviour \<Rightarrow> string \<Rightarrow> payload \<Rightarrow> 'h app_state
    \<Rightarrow> 'h call list \<times> 'h app_state" where
  "emit run event p st =
     (let handlers = (case listeners st event of None \<Rightarrow> [] | Some hs \<Rightarrow> hs)
      in forEach_handler run handlers p st)"

definition getSelectedBoats :: "'h app_state \<Rightarrow> int list" where
  "getSelectedBoats st = selectedBoats st"

definition setRaces :: "'h behaviour \<Rightarrow> race list \<Rightarrow> 'h app_state
    \<Rightarrow> 'h call list \<times> 'h app_state" where
  "setRaces run rs st = emit run ''races'' (PRaces rs) (st\<lparr>races := rs\<rparr>)"

definition setSelectedRace :: "'h behaviour \<Rightarrow> int option \<Rightarrow> 'h app_state
    \<Rightarrow> 'h call list \<times> 'h app_state" where
  "setSelectedRace run raceId st =
     (if selectedRaceId st = raceId then ([], st)
      else
        let st1 = st\<lparr>selectedRaceId := raceId, selectedBoats := []\<rparr>;
            (c1, st2) = emit run ''selectedRace'' (PRaceId raceId) st1;
            (c2, st3) = emit run ''boatSelection'' (PBoatIds (getSelectedBoats st2)) st2
        in (c1 @ c2, st3))"

definition setBoats :: "'h behaviour \<Rightarrow> boat list \<Rightarrow> 'h app_state
    \<Rightarrow> 'h call list \<times> 'h app_state" where
  "setBoats run bs st =
     (let st1 = st\<lparr>boats := bs, selectedBoats := []\<rparr>;
          (c1, st2) = emit run ''boats'' (PBoats bs) st1;
          (c2, st3) = emit run ''boatSelection'' (PBoatIds (getSelectedBoats st2)) st2
      in (c1 @ c2, st3))"

text \<open>\<open>Set.add\<close> appends an element that is not yet present; \<open>Set.delete\<close> removes it.\<close>

definition set_add :: "int \<Rightarrow> int list \<Rightarrow> int list" where
  "set_add x xs = (if x \<in> set xs then xs else xs @ [x])"

definition set_delete :: "int \<Rightarrow> int list \<Rightarrow> int list" where
  "set_delete x xs = filter (\<lambda>y. y \<noteq> x) xs"

definition toggleBoat :: "'h behaviour \<Rightarrow> int \<Rightarrow> bool \<Rightarrow> 'h app_state
    \<Rightarrow> 'h call list \<times> 'h app_state" where
  "toggleBoat run boatId enabled st =
     (let st1 = (if enabled then st\<lparr>selectedBoats := set_add boatId (selectedBoats st)\<rparr>
                 else st\<lparr>selectedBoats := set_delete boatId (selectedBoats st)\<rparr>)
      in emit run ''boatSelection'' (PBoatIds (getSelectedBoats st1)) st1)"

definition getRaceById :: "int \<Rightarrow> 'h app_state \<Rightarrow> race option" where
  "getRaceById i st = find (\<lambda>r. id_race r = i) (races st)"

definition getBoatById :: "int \<Rightarrow> 'h app_state \<Rightarrow> boat option" where
  "getBoatById i st = find (\<lambda>b. id_boat b = i) (boats st)"

text \<open>
  A handler that works on the page only and leaves the state object alone. The handlers
  that \<open>UIController.setupSubscriptions\<close> registers for \<open>selectedRace\<close>, \<open>boats\<close> and
  \<open>boatSelection\<close> are of this kind: they write to the page, read the state and start
  requests whose continuations run later.
\<close>

definition page_only :: "'h behaviour" where
  "page_only h p st = ([], st)"

text \<open>A handler that calls back into the state and selects boat 7.\<close>

definition selecting :: "nat behaviour" where
  "selecting h p st = toggleBoat page_only 7 True st"

text \<open>A state with two boats selected and handlers registered, used in examples.\<close>

definition example_state :: "nat app_state" where
  "example_state = \<lparr>races = [],
     boats = [\<lparr>id_boat = 3, sail_no = ''GBR 12'', label_color = ''#d62728''\<rparr>,
              \<lparr>id_boat = 5, sail_no = [], label_color = ''#1f77b4''\<rparr>],
     selectedRaceId = Some 1, selectedBoats = [3, 5],
     listeners = [''boats'' \<mapsto> [0], ''boatSelection'' \<mapsto> [1, 2]]\<rparr>"

definition keeps_selection :: "'h behaviour \<Rightarrow> bool" where
  "keeps_selection run = (\<forall>h p st. selectedBoats (snd (run h p st)) = selectedBoats st)"

text \<open>
  The handlers registered for the three events that \<open>setSelectedRace\<close> and \<open>setBoats\<close>
  emit, and what it is for one handler to leave the selection and the registrations as
  they are, whenever it is called.
\<close>

definition handlers_of :: "'h app_state \<Rightarrow> string \<Rightarrow> 'h list" where
  "handlers_of st event = (case listeners st event of None \<Rightarrow> [] | Some hs \<Rightarrow> hs)"

definition reset_handlers :: "'h app_state \<Rightarrow> 'h list" where
  "reset_handlers st =
     handlers_of st ''selectedRace'' @ handlers_of st ''boats'' @ handlers_of st ''boatSelection''"

definition leaves_selection :: "'h behaviour \<Rightarrow> 'h \<Rightarrow> bool" where
  "leaves_selection run h =
     (\<forall>p st. selectedBoats (snd (run h p st)) = selectedBoats st
        \<and> listeners (snd (run h p st)) = listeners st)"

section \<open>JavaScript strings and numbers\<close>

text \<open>
  \<open>String(n)\<close> for an integer: its decimal digits, with a minus sign when negative.
\<close>

definition digit_char :: "nat \<Rightarrow> char" where
  "digit_char d = ''0123456789'' ! d"

function String_nat :: "nat \<Rightarrow> string" where
  "String_nat n = (if n < 10 then [digit_char n] else String_nat (n div 10) @ [digit_char (n mod 10)])"
  by pat_completeness auto
termination
  by (relation "measure (\<lambda>n. n)") auto

declare String_nat.simps [simp del]

definition String_int :: "int \<Rightarrow> string" where
  "String_int i = (if i < 0 then ''-'' @ String_nat (nat (- i)) else String_nat (nat i))"

definition padStart :: "nat \<Rightarrow> char \<Rightarrow> string \<Rightarrow> string" where
  "padStart n c s = replicate (n - length s) c @ s"

text \<open>
  A JavaScript number is a binary64 value: not-a-number, an infinity, or a finite value,
  kept as the rational it denotes exactly. \<open>Number.prototype.toFixed\<close> reads nothing else
  of it (negative zero is formatted as zero).
\<close>

datatype jsnum = NaN | PosInf | NegInf | Fin rat

text \<open>
  Steps 10 and 11 of \<open>Number.prototype.toFixed\<close> (ECMA-262) for \<open>0 \<le> x < 10^21\<close>:
  \<open>n\<close> is the integer nearest to \<open>x * 10^f\<close>, the larger one of two; its digits are padded
  with zeros to \<open>f + 1\<close> and the point is put before the last \<open>f\<close>.
\<close>

definition fixed_notation :: "nat \<Rightarrow> rat \<Rightarrow> string" where
  "fixed_notation f x =
     (let n = nat \<lfloor>x * 10 ^ f + 1 / 2\<rfloor>;
          m = String_nat n
      in if f = 0 then m
         else
           let m1 = (if length m \<le> f then replicate (f + 1 - length m) (CHR ''0'') @ m else m);
               k = length m1
           in take (k - f) m1 @ ''.'' @ drop (k - f) m1)"

text \<open>
  \<open>x.toFixed(f)\<close> for \<open>0 \<le> f \<le> 100\<close> (the calls below pass 0, 1 and 2; other arguments
  raise RangeError). From \<open>10^21\<close> on the result is \<open>String(x)\<close>, an exponent notation
  whose digits depend on the binary64 neighbours of \<open>x\<close>; it is the parameter \<open>expo\<close>.
\<close>

fun toFixed :: "(rat \<Rightarrow> string) \<Rightarrow> nat \<Rightarrow> jsnum \<Rightarrow> string" where
  "toFixed expo f NaN = ''NaN''"
| "toFixed expo f PosInf = ''Infinity''"
| "toFixed expo f NegInf = ''-Infinity''"
| "toFixed expo f (Fin x) =
     (let s = (if x < 0 then ''-'' else []);
          a = (if x < 0 then - x else x)
      in s @ (if 10 ^ 21 \<le> a then expo a else fixed_notation f a))"

text \<open>
  What the code raises, with \<open>error.message\<close>. The texts of the RangeError and of the
  TypeError are the browser's.
\<close>

datatype error = RangeError | TypeError string | Error string

definition message :: "error \<Rightarrow> string" where
  "message e = (case e of RangeError \<Rightarrow> ''Invalid time value'' | TypeError m \<Rightarrow> m | Error m \<Rightarrow> m)"

text \<open>
  \<open>v.toFixed(f)\<close> where \<open>v\<close> is a value of a JSON answer that is a number or \<open>null\<close>
  (\<open>None\<close>): reading a property of \<open>null\<close> raises TypeError.
\<close>

definition method_toFixed :: "(rat \<Rightarrow> string) \<Rightarrow> nat \<Rightarrow> jsnum option \<Rightarrow> error + string" where
  "method_toFixed expo f v =
     (case v of
        None \<Rightarrow> Inl (TypeError ''Cannot read properties of null'')
      | Some x \<Rightarrow> Inr (toFixed expo f x))"

section \<open>Dates (the Date object of ECMA-262)\<close>

text \<open>
  A time value is a number of milliseconds since 1 January 1970 UTC. The functions below
  are those of ECMA-262, section "Time Values and Time Range", under their names there.
\<close>

definition msPerDay :: int where
  "msPerDay = 86400000"

definition Day :: "int \<Rightarrow> int" where
  "Day t = t div msPerDay"

definition DaysInYear :: "int \<Rightarrow> int" where
  "DaysInYear y =
     (if y mod 4 \<noteq> 0 then 365 else if y mod 100 \<noteq> 0 then 366
      else if y mod 400 \<noteq> 0 then 365 else 366)"

definition DayFromYear :: "int \<Rightarrow> int" where
  "DayFromYear y = 365 * (y - 1970) + (y - 1969) div 4 - (y - 1901) div 100 + (y - 1601) div 400"

text \<open>
  ECMA-262 defines \<open>YearFromTime(t)\<close> as the largest \<open>y\<close> with \<open>TimeFromYear(y) \<le> t\<close>. It is
  computed from an estimate that is off by one year at most; lemma \<open>YearFromTime_bounds\<close>
  shows that the result is that year.
\<close>

definition YearFromTime :: "int \<Rightarrow> int" where
  "YearFromTime t =
     (let d = Day t;
          y = 1970 + (400 * d) div 146097
      in if DayFromYear (y + 1) \<le> d then y + 1
         else if d < DayFromYear y then y - 1
         else y)"

definition DayWithinYear :: "int \<Rightarrow> int" where
  "DayWithinYear t = Day t - DayFromYear (YearFromTime t)"

definition InLeapYear :: "int \<Rightarrow> int" where
  "InLeapYear t = (if DaysInYear (YearFromTime t) = 366 then 1 else 0)"

definition MonthFromTime :: "int \<Rightarrow> int" where
  "MonthFromTime t =
     (let d = DayWithinYear t;
          l = InLeapYear t
      in if d < 31 then 0
         else if d < 59 + l then 1
         else if d < 90 + l then 2
         else if d < 120 + l then 3
         else if d < 151 + l then 4
         else if d < 181 + l then 5
         else if d < 212 + l then 6
         else if d < 243 + l then 7
         else if d < 273 + l then 8
         else if d < 304 + l then 9
         else if d < 334 + l then 10
         else 11)"

definition DateFromTime :: "int \<Rightarrow> int" where
  "DateFromTime t =
     (let d = DayWithinYear t;
          l = InLeapYear t;
          m = MonthFromTime t
      in if m = 0 then d + 1
         else if m = 1 then d - 30
         else if m = 2 then d - 58 - l
         else if m = 3 then d - 89 - l
         else if m = 4 then d - 119 - l
         else if m = 5 then d - 150 - l
         else if m = 6 then d - 180 - l
         else if m = 7 then d - 211 - l
         else if m = 8 then d - 242 - l
         else if m = 9 then d - 272 - l
         else if m = 10 then d - 303 - l
         else d - 333 - l)"

definition HourFromTime :: "int \<Rightarrow> int" where
  "HourFromTime t = (t div 3600000) mod 24"

definition MinFromTime :: "int \<Rightarrow> int" where
  "MinFromTime t = (t div 60000) mod 60"

definition SecFromTime :: "int \<Rightarrow> int" where
  "SecFromTime t = (t div 1000) mod 60"

definition msFromTime :: "int \<Rightarrow> int" where
  "msFromTime t = t mod 1000"

text \<open>
  A Date object holds a time value of magnitude at most \<open>8.64 * 10^15\<close>, or NaN (an invalid
  date, \<open>None\<close>). How a string is read is left to the browser: \<open>parse\<close> is \<open>Date.parse\<close>,
  with \<open>None\<close> for NaN.
\<close>

definition new_Date :: "(string \<Rightarrow> int option) \<Rightarrow> string \<Rightarrow> int option" where
  "new_Date parse s =
     (case parse s of
        None \<Rightarrow> None
      | Some t \<Rightarrow> if \<bar>t\<bar> \<le> 8640000000000000 then Some t else None)"

text \<open>
  \<open>Date.prototype.toISOString\<close> of a valid date: \<open>YYYY-MM-DDTHH:mm:ss.sssZ\<close>, the year with
  a sign and six digits outside 0 to 9999.
\<close>

definition year_digits :: "int \<Rightarrow> string" where
  "year_digits y =
     (if 0 \<le> y \<and> y \<le> 9999 then padStart 4 (CHR ''0'') (String_nat (nat y))
      else (if y < 0 then ''-'' else ''+'') @ padStart 6 (CHR ''0'') (String_nat (nat \<bar>y\<bar>)))"

definition toISOString :: "int \<Rightarrow> string" where
  "toISOString t =
     year_digits (YearFromTime t) @ ''-''
     @ padStart 2 (CHR ''0'') (String_int (MonthFromTime t + 1)) @ ''-''
     @ padStart 2 (CHR ''0'') (String_int (DateFromTime t)) @ ''T''
     @ padStart 2 (CHR ''0'') (String_int (HourFromTime t)) @ '':''
     @ padStart 2 (CHR ''0'') (String_int (MinFromTime t)) @ '':''
     @ padStart 2 (CHR ''0'') (String_int (SecFromTime t)) @ ''.''
     @ padStart 3 (CHR ''0'') (String_int (msFromTime t)) @ ''Z''"

text \<open>
  The local-time getters read the time value shifted by the offset of the local zone at
  that instant, \<open>tza t\<close> (in milliseconds).
\<close>

definition LocalTime :: "(int \<Rightarrow> int) \<Rightarrow> int \<Rightarrow> int" where
  "LocalTime tza t = t + tza t"

definition getFullYear :: "(int \<Rightarrow> int) \<Rightarrow> int \<Rightarrow> int" where
  "getFullYear tza t = YearFromTime (LocalTime tza t)"

definition getMonth :: "(int \<Rightarrow> int) \<Rightarrow> int \<Rightarrow> int" where
  "getMonth tza t = MonthFromTime (LocalTime tza t)"

definition getDate :: "(int \<Rightarrow> int) \<Rightarrow> int \<Rightarrow> int" where
  "getDate tza t = DateFromTime (LocalTime tza t)"

definition getHours :: "(int \<Rightarrow> int) \<Rightarrow> int \<Rightarrow> int" where
  "getHours tza t = HourFromTime (LocalTime tza t)"

definition getMinutes :: "(int \<Rightarrow> int) \<Rightarrow> int \<Rightarrow> int" where
  "getMinutes tza t = MinFromTime (LocalTime tza t)"

section \<open>formatDateTimeLocal (utils.js)\<close>

text \<open>The values the function is called with: \<open>null\<close>, \<open>undefined\<close> or a string.\<close>

datatype jsvalue = Null | Undefined | Str string

definition formatDateTimeLocal :: "(string \<Rightarrow> int option) \<Rightarrow> (int \<Rightarrow> int) \<Rightarrow> jsvalue \<Rightarrow> string" where
  "formatDateTimeLocal parse tza v =
     (case v of
        Null \<Rightarrow> []
      | Undefined \<Rightarrow> []
      | Str s \<Rightarrow>
          if s = [] then []
          else
            (case new_Date parse s of
               None \<Rightarrow> []
             | Some t \<Rightarrow>
                 let pad = (\<lambda>n. padStart 2 (CHR ''0'') (String_int n));
                     yyyy = getFullYear tza t;
                     mm = pad (getMonth tza t + 1);
                     dd = pad (getDate tza t);
                     hh = pad (getHours tza t);
                     min = pad (getMinutes tza t)
                 in String_int yyyy @ ''-'' @ mm @ ''-'' @ dd @ ''T'' @ hh @ '':'' @ min))"

section \<open>The statistics table (ui.js, UIController.renderStatsTable; main.js, refreshStats)\<close>

text \<open>
  One element of the array the stats endpoint returns, with the fields the table reads.
  A measure is a JSON number or \<open>null\<close> (\<open>None\<close>); the two counts are JSON integers.
\<close>

record WindowStat =
  boat_id :: int
  avg_sog :: "jsnum option"
  avg_vmg :: "jsnum option"
  avg_heading :: "jsnum option"
  heading_std :: "jsnum option"
  distance_sailed :: "jsnum option"
  height_gain :: "jsnum option"
  tack_count :: int
  gybe_count :: int

text \<open>
  An element of the \<open>cells\<close> array: a string, or a number that has not been formatted.
  Assigning it to \<open>textContent\<close> converts it to a string.
\<close>

datatype cell = Text string | Number int

definition textContent :: "cell \<Rightarrow> string" where
  "textContent c = (case c of Text s \<Rightarrow> s | Number i \<Rightarrow> String_int i)"

text \<open>
  \<open>boat?.sail_no || stat.boat_id\<close>: the sail number of the boat when the boat is known and
  the sail number is not the empty string, else the boat id.
\<close>

definition boat_label :: "boat option \<Rightarrow> WindowStat \<Rightarrow> cell" where
  "boat_label b stat =
     (case b of
        None \<Rightarrow> Number (boat_id stat)
      | Some bt \<Rightarrow> if sail_no bt = [] then Number (boat_id stat) else Text (sail_no bt))"

text \<open>
  The array literal \<open>cells\<close>: its elements are evaluated from first to last, and the first
  \<open>toFixed\<close> on a \<open>null\<close> measure raises, so that no array is made.
\<close>

definition cells :: "(rat \<Rightarrow> string) \<Rightarrow> boat option \<Rightarrow> WindowStat \<Rightarrow> error + cell list" where
  "cells expo b stat =
     (let label = boat_label b stat
      in case method_toFixed expo 2 (avg_sog stat) of Inl e \<Rightarrow> Inl e | Inr sog \<Rightarrow>
         (case method_toFixed expo 2 (avg_vmg stat) of Inl e \<Rightarrow> Inl e | Inr vmg \<Rightarrow>
         (case method_toFixed expo 1 (avg_heading stat) of Inl e \<Rightarrow> Inl e | Inr heading \<Rightarrow>
         (case method_toFixed expo 1 (heading_std stat) of Inl e \<Rightarrow> Inl e | Inr std \<Rightarrow>
         (case method_toFixed expo 0 (distance_sailed stat) of Inl e \<Rightarrow> Inl e | Inr distance \<Rightarrow>
         (case method_toFixed expo 1 (height_gain stat) of Inl e \<Rightarrow> Inl e | Inr height \<Rightarrow>
            Inr [label, Text sog, Text vmg, Text heading, Text std, Text distance, Text height,
                 Number (tack_count stat), Number (gybe_count stat)]))))))"

text \<open>
  \<open>stats.forEach\<close> with the callback that makes one row: a row is appended to the table
  body once all its cells are made, one \<open>td\<close> per cell; a row is the list of the texts of
  its \<open>td\<close> elements. When the callback raises, the loop ends: the rows appended so far
  stay, and the error goes to the caller.
\<close>

fun forEach_stat :: "(WindowStat \<Rightarrow> error + cell list) \<Rightarrow> WindowStat list
    \<Rightarrow> string list list \<times> error option" where
  "forEach_stat row [] = ([], None)"
| "forEach_stat row (stat # stats) =
     (case row stat of
        Inl e \<Rightarrow> ([], Some e)
      | Inr cs \<Rightarrow>
          let (rows, err) = forEach_stat row stats
          in (map textContent cs # rows, err))"

text \<open>
  The table body after \<open>renderStatsTable(stats)\<close>, which empties it first, and the error
  raised, if any.
\<close>

definition renderStatsTable :: "(rat \<Rightarrow> string) \<Rightarrow> 'h app_state \<Rightarrow> WindowStat list
    \<Rightarrow> string list list \<times> error option" where
  "renderStatsTable expo st stats =
     forEach_stat (\<lambda>stat. cells expo (getBoatById (boat_id stat) st) stat) stats"

text \<open>The same loop in main.js, on the global \<open>boats\<close> array.\<close>

definition main_renderStats :: "(rat \<Rightarrow> string) \<Rightarrow> boat list \<Rightarrow> WindowStat list
    \<Rightarrow> string list list \<times> error option" where
  "main_renderStats expo bs stats =
     forEach_stat (\<lambda>stat. cells expo (find (\<lambda>b. id_boat b = boat_id stat) bs) stat) stats"

section \<open>The API client (apiClient.js)\<close>

text \<open>
  A request is the path below the base URL and the entries of its \<open>URLSearchParams\<close>, in
  the order in which they were appended; \<open>append\<close> converts the value to a string.
\<close>

record request =
  path :: string
  search :: "(string \<times> string) list"

definition search_append :: "string \<Rightarrow> string \<Rightarrow> (string \<times> string) list \<Rightarrow> (string \<times> string) list" where
  "search_append k v q = q @ [(k, v)]"

text \<open>\<open>boats.forEach((boatId) => search.append("boats", boatId))\<close>\<close>

fun append_boats :: "int list \<Rightarrow> (string \<times> string) list \<Rightarrow> (string \<times> string) list" where
  "append_boats [] q = q"
| "append_boats (b # bs) q = append_boats bs (search_append ''boats'' (String_int b) q)"

text \<open>
  The \<open>params\<close> object of the three query methods. A field that the caller leaves out is
  \<open>undefined\<close> (\<open>None\<close>); appended without a test, it is sent as the text \<open>undefined\<close>.
  A string is truthy when it is not empty, a number when it is not zero.
\<close>

record params =
  p_boats :: "int list"
  p_t0 :: "string option"
  p_t1 :: "string option"
  p_ref :: "string option"
  p_legId :: "int option"
  p_downsample :: "int option"

definition String_opt :: "string option \<Rightarrow> string" where
  "String_opt v = (case v of None \<Rightarrow> ''undefined'' | Some s \<Rightarrow> s)"

definition truthy_string :: "string option \<Rightarrow> bool" where
  "truthy_string v = (case v of None \<Rightarrow> False | Some s \<Rightarrow> s \<noteq> [])"

text \<open>
  \<open>getTracks\<close> and \<open>getStats\<close>, the request each of them fetches. \<open>params.boats\<close> is an
  array in every call, and an array is truthy, so the test on it in \<open>getTracks\<close> passes.
\<close>

definition getTracks :: "params \<Rightarrow> request" where
  "getTracks p =
     (let s0 = append_boats (p_boats p) [];
          s1 = (if truthy_string (p_t0 p) then search_append ''t0'' (String_opt (p_t0 p)) s0 else s0);
          s2 = (if truthy_string (p_t1 p) then search_append ''t1'' (String_opt (p_t1 p)) s1 else s1);
          s3 = (case p_downsample p of
                  None \<Rightarrow> s2
                | Some n \<Rightarrow> if n \<noteq> 0 then search_append ''downsample'' (String_int n) s2 else s2)
      in \<lparr>path = ''/tracks'', search = s3\<rparr>)"

definition getStats :: "params \<Rightarrow> request" where
  "getStats p =
     (let s0 = append_boats (p_boats p) [];
          s1 = search_append ''t0'' (String_opt (p_t0 p)) s0;
          s2 = search_append ''t1'' (String_opt (p_t1 p)) s1;
          s3 = search_append ''ref'' (case p_ref p of None \<Rightarrow> ''twd'' | Some r \<Rightarrow> r) s2;
          s4 = (case p_legId p of
                  None \<Rightarrow> s3
                | Some n \<Rightarrow> if n \<noteq> 0 then search_append ''legId'' (String_int n) s3 else s3)
      in \<lparr>path = ''/stats'', search = s4\<rparr>)"

text \<open>\<open>ApiClient.downloadCsv\<close>, the request it fetches.\<close>

definition downloadCsv_request :: "params \<Rightarrow> request" where
  "downloadCsv_request p =
     (let s0 = append_boats (p_boats p) [];
          s1 = search_append ''t0'' (String_opt (p_t0 p)) s0;
          s2 = search_append ''t1'' (String_opt (p_t1 p)) s1;
          s3 = (if truthy_string (p_ref p) then search_append ''ref'' (String_opt (p_ref p)) s2 else s2)
      in \<lparr>path = ''/export/csv'', search = s3\<rparr>)"

text \<open>
  What the server answers: the fetch is rejected (no connection) with a message, or the
  response is not ok and carries a detail, or it is ok and carries a body (JSON served as
  \<open>application/json\<close> for the stats, the bytes of the file for the export).
\<close>

datatype 'a reply = Rejected string | NotOk string | Ok_body 'a

text \<open>\<open>ApiClient.request\<close> and \<open>fetchJSON\<close> of main.js, on the answer to the fetch.\<close>

definition api_request :: "'a reply \<Rightarrow> error + 'a" where
  "api_request r =
     (case r of
        Rejected m \<Rightarrow> Inl (TypeError m)
      | NotOk detail \<Rightarrow> Inl (Error detail)
      | Ok_body b \<Rightarrow> Inr b)"

text \<open>\<open>ApiClient.downloadCsv\<close>, on the answer to its fetch.\<close>

definition downloadCsv_response :: "string reply \<Rightarrow> error + string" where
  "downloadCsv_response r =
     (case r of
        Rejected m \<Rightarrow> Inl (TypeError m)
      | NotOk detail \<Rightarrow> Inl (Error ''Failed to download CSV'')
      | Ok_body blob \<Rightarrow> Inr blob)"

section \<open>The controller (ui.js, class UIController)\<close>

text \<open>
  What a method does to the page and the network, in order: an alert, emptying the
  statistics table, a fetch, the statistics table emptied and filled with rows (those
  appended before an error, if one is raised), and a click on a link with a \<open>download\<close>
  attribute (file name and content).
\<close>

datatype effect =
    Alert string
  | ClearStatsTable
  | Fetch request
  | StatsTable "string list list"
  | Download string string

text \<open>
  \<open>getWindowRange\<close> reads the two pickers. \<open>toISOString\<close> of an invalid date raises
  RangeError.
\<close>

definition getWindowRange :: "(string \<Rightarrow> int option) \<Rightarrow> string \<Rightarrow> string \<Rightarrow> error + (string \<times> string) option" where
  "getWindowRange parse start end =
     (if start = [] \<or> end = [] then Inr None
      else
        (case new_Date parse start of
           None \<Rightarrow> Inl RangeError
         | Some a \<Rightarrow>
             (case new_Date parse end of
                None \<Rightarrow> Inl RangeError
              | Some b \<Rightarrow> Inr (Some (toISOString a, toISOString b)))))"

text \<open>
  The asynchronous methods return the effects they had and the error they were rejected
  with, if any. \<open>refreshTracks\<close> is modelled up to its request.
\<close>

definition refreshTracks :: "(string \<Rightarrow> int option) \<Rightarrow> 'h app_state \<Rightarrow> string \<Rightarrow> string \<Rightarrow> effect list \<times> error option" where
  "refreshTracks parse st start end =
     (let boatIds = getSelectedBoats st
      in if boatIds = [] then ([], None)
         else
           (case getWindowRange parse start end of
              Inl e \<Rightarrow> ([], Some e)
            | Inr rng \<Rightarrow>
                let startIso = (case rng of None \<Rightarrow> None | Some (a, b) \<Rightarrow> Some a);
                    endIso = (case rng of None \<Rightarrow> None | Some (a, b) \<Rightarrow> Some b);
                    p = \<lparr>p_boats = boatIds,
                         p_t0 = (if truthy_string startIso then startIso else None),
                         p_t1 = (if truthy_string endIso then endIso else None),
                         p_ref = None, p_legId = None, p_downsample = None\<rparr>
                in ([Fetch (getTracks p)], None)))"

definition refreshStats :: "(string \<Rightarrow> int option) \<Rightarrow> (rat \<Rightarrow> string) \<Rightarrow> (request \<Rightarrow> WindowStat list reply)
    \<Rightarrow> 'h app_state \<Rightarrow> string \<Rightarrow> string \<Rightarrow> effect list \<times> error option" where
  "refreshStats parse expo server st start end =
     (let boatIds = getSelectedBoats st
      in case getWindowRange parse start end of
           Inl e \<Rightarrow> ([], Some e)
         | Inr None \<Rightarrow> ([ClearStatsTable], None)
         | Inr (Some (startIso, endIso)) \<Rightarrow>
             if boatIds = [] then ([ClearStatsTable], None)
             else
               let req = getStats \<lparr>p_boats = boatIds, p_t0 = Some startIso, p_t1 = Some endIso,
                                   p_ref = Some ''twd'', p_legId = None, p_downsample = None\<rparr>
               in (case api_request (server req) of
                     Inl e \<Rightarrow> ([Fetch req], Some e)
                   | Inr stats \<Rightarrow>
                       let (rows, err) = renderStatsTable expo st stats
                       in ([Fetch req, StatsTable rows], err)))"

definition downloadCsv :: "(string \<Rightarrow> int option) \<Rightarrow> (request \<Rightarrow> string reply)
    \<Rightarrow> 'h app_state \<Rightarrow> string \<Rightarrow> string \<Rightarrow> effect list \<times> error option" where
  "downloadCsv parse server st start end =
     (let boatIds = getSelectedBoats st
      in case getWindowRange parse start end of
           Inl e \<Rightarrow> ([], Some e)
         | Inr None \<Rightarrow> ([Alert ''Select boats and a valid time window first''], None)
         | Inr (Some (startIso, endIso)) \<Rightarrow>
             if boatIds = [] then ([Alert ''Select boats and a valid time window first''], None)
             else
               let req = downloadCsv_request \<lparr>p_boats = boatIds, p_t0 = Some startIso,
                           p_t1 = Some endIso, p_ref = None, p_legId = None, p_downsample = None\<rparr>
               in (case downloadCsv_response (server req) of
                     Inl e \<Rightarrow> ([Fetch req, Alert (message e)], None)
                   | Inr blob \<Rightarrow> ([Fetch req, Download ''window_stats.csv'' blob], None)))"

section \<open>The single-file client (frontend/main.js)\<close>

text \<open>
  The same three actions on the globals \<open>selectedBoats\<close> (a \<open>Set\<close>) and \<open>boats\<close>. Nothing
  catches what they raise.
\<close>

definition main_iso :: "(string \<Rightarrow> int option) \<Rightarrow> string \<Rightarrow> error + string" where
  "main_iso parse v = (case new_Date parse v of None \<Rightarrow> Inl RangeError | Some t \<Rightarrow> Inr (toISOString t))"

definition main_refreshTracks :: "(string \<Rightarrow> int option) \<Rightarrow> int list \<Rightarrow> string \<Rightarrow> string \<Rightarrow> effect list \<times> error option" where
  "main_refreshTracks parse selected start end =
     (if selected = [] then ([], None)
      else
        let s0 = append_boats selected []
        in case (if start \<noteq> [] then map_sum id (\<lambda>iso. search_append ''t0'' iso s0) (main_iso parse start)
                 else Inr s0) of
             Inl e \<Rightarrow> ([], Some e)
           | Inr s1 \<Rightarrow>
               (case (if end \<noteq> [] then map_sum id (\<lambda>iso. search_append ''t1'' iso s1) (main_iso parse end)
                      else Inr s1) of
                  Inl e \<Rightarrow> ([], Some e)
                | Inr s2 \<Rightarrow> ([Fetch \<lparr>path = ''/tracks'', search = s2\<rparr>], None)))"

definition main_refreshStats :: "(string \<Rightarrow> int option) \<Rightarrow> (rat \<Rightarrow> string) \<Rightarrow> (request \<Rightarrow> WindowStat list reply)
    \<Rightarrow> int list \<Rightarrow> boat list \<Rightarrow> string \<Rightarrow> string \<Rightarrow> effect list \<times> error option" where
  "main_refreshStats parse expo server selected bs start end =
     (if selected = [] then ([], None)
      else if start = [] \<or> end = [] then ([], None)
      else
        let s0 = append_boats selected []
        in case main_iso parse start of
             Inl e \<Rightarrow> ([], Some e)
           | Inr t0 \<Rightarrow>
               (case main_iso parse end of
                  Inl e \<Rightarrow> ([], Some e)
                | Inr t1 \<Rightarrow>
                    let req = \<lparr>path = ''/stats'',
                               search = search_append ''ref'' ''twd''
                                 (search_append ''t1'' t1 (search_append ''t0'' t0 s0))\<rparr>
                    in (case api_request (server req) of
                          Inl e \<Rightarrow> ([Fetch req], Some e)
                        | Inr stats \<Rightarrow>
                            let (rows, err) = main_renderStats expo bs stats
                            in ([Fetch req, StatsTable rows], err))))"

definition main_downloadCSV :: "(string \<Rightarrow> int option) \<Rightarrow> (request \<Rightarrow> string reply)
    \<Rightarrow> int list \<Rightarrow> string \<Rightarrow> string \<Rightarrow> effect list \<times> error option" where
  "main_downloadCSV parse server selected start end =
     (if selected = [] then ([], None)
      else if start = [] \<or> end = [] then ([], None)
      else
        let s0 = append_boats selected []
        in case main_iso parse start of
             Inl e \<Rightarrow> ([], Some e)
           | Inr t0 \<Rightarrow>
               (case main_iso parse end of
                  Inl e \<Rightarrow> ([], Some e)
                | Inr t1 \<Rightarrow>
                    let req = \<lparr>path = ''/export/csv'',
                               search = search_append ''t1'' t1 (search_append ''t0'' t0 s0)\<rparr>
                    in (case server req of
                          Rejected m \<Rightarrow> ([Fetch req], Some (TypeError m))
                        | NotOk detail \<Rightarrow> ([Fetch req, Alert ''Failed to download CSV''], None)
                        | Ok_body blob \<Rightarrow> ([Fetch req, Download ''window_stats.csv'' blob], None))))"

section \<open>Reading decimal strings\<close>

text \<open>
  What a reader of the table or of an exported file sees in a formatted number: an optional
  minus sign, the digits before the point, and the digits after it.
\<close>

definition is_digit :: "char \<Rightarrow> bool" where
  "is_digit c = (c \<in> set ''0123456789'')"

definition digit_value :: "char \<Rightarrow> nat" where
  "digit_value c = of_char c - 48"

definition read_nat :: "string \<Rightarrow> nat" where
  "read_nat s = foldl (\<lambda>a c. 10 * a + digit_value c) 0 s"

definition negative :: "string \<Rightarrow> bool" where
  "negative s = (case s of [] \<Rightarrow> False | c # cs \<Rightarrow> c = CHR ''-'')"

definition unsigned :: "string \<Rightarrow> string" where
  "unsigned s = (case s of [] \<Rightarrow> [] | c # cs \<Rightarrow> if c = CHR ''-'' then cs else s)"

definition read_int :: "string \<Rightarrow> int" where
  "read_int s = (if negative s then - int (read_nat (unsigned s)) else int (read_nat s))"

definition integer_part :: "string \<Rightarrow> string" where
  "integer_part s = takeWhile is_digit (unsigned s)"

definition fraction_part :: "string \<Rightarrow> string" where
  "fraction_part s = (case dropWhile is_digit (unsigned s) of [] \<Rightarrow> [] | c # cs \<Rightarrow> cs)"

text \<open>
  \<open>fixed_decimal d s\<close>: \<open>s\<close> is a number written with exactly \<open>d\<close> decimals, that is, at
  least one digit, then nothing more when \<open>d = 0\<close>, and a point and \<open>d\<close> digits otherwise.
\<close>

definition fixed_decimal :: "nat \<Rightarrow> string \<Rightarrow> bool" where
  "fixed_decimal d s =
     (integer_part s \<noteq> []
      \<and> list_all is_digit (fraction_part s)
      \<and> length (fraction_part s) = d
      \<and> dropWhile is_digit (unsigned s) = (if d = 0 then [] else CHR ''.'' # fraction_part s))"

definition decimal_value :: "string \<Rightarrow> rat" where
  "decimal_value s =
     (let v = of_nat (read_nat (integer_part s @ fraction_part s)) / 10 ^ length (fraction_part s)
      in if negative s then - v else v)"

text \<open>
  A measure that \<open>toFixed\<close> writes in fixed notation: a number, finite and below \<open>10^21\<close>
  in magnitude; and its value.
\<close>

definition plain :: "jsnum option \<Rightarrow> bool" where
  "plain v = (case v of Some (Fin x) \<Rightarrow> \<bar>x\<bar> < 10 ^ 21 | _ \<Rightarrow> False)"

definition rat_of :: "jsnum option \<Rightarrow> rat" where
  "rat_of v = (case v of Some (Fin x) \<Rightarrow> x | _ \<Rightarrow> 0)"

text \<open>A WindowStat whose six measures are numbers.\<close>

definition numeric :: "WindowStat \<Rightarrow> bool" where
  "numeric stat =
     (avg_sog stat \<noteq> None \<and> avg_vmg stat \<noteq> None \<and> avg_heading stat \<noteq> None
      \<and> heading_std stat \<noteq> None \<and> distance_sailed stat \<noteq> None \<and> height_gain stat \<noteq> None)"

section \<open>The columns of the export\<close>

text \<open>
  The identifier under which a boat is shown: the sail number that the boat list gives for
  the boat id, in its first entry with that id, when that is not empty; the boat id in
  decimal otherwise.
\<close>

fun boat_identifier :: "boat list \<Rightarrow> int \<Rightarrow> string" where
  "boat_identifier [] i = String_int i"
| "boat_identifier (b # bs) i =
     (if id_boat b = i then (if sail_no b = [] then String_int i else sail_no b)
      else boat_identifier bs i)"

text \<open>A measure in fixed notation with \<open>f\<close> decimals; a measure that is \<open>null\<close> has no text.\<close>

definition measure_text :: "(rat \<Rightarrow> string) \<Rightarrow> nat \<Rightarrow> jsnum option \<Rightarrow> string" where
  "measure_text expo f v = (case v of None \<Rightarrow> [] | Some x \<Rightarrow> toFixed expo f x)"

text \<open>
  The columns that the CSV export and the table share, in the order of the specification,
  and what a column shows of a WindowStat, given the list of the boats: the boat
  identifier, the six measures in fixed notation (two decimals for the speeds, one for the
  angles and the height gain, none for the distance) and the two counts.
\<close>

datatype column =
    Boat_identifier | Avg_sog | Avg_vmg | Avg_heading | Heading_std
  | Distance_sailed | Height_gain | Tack_count | Gybe_count

definition column_order :: "column list" where
  "column_order = [Boat_identifier, Avg_sog, Avg_vmg, Avg_heading, Heading_std,
     Distance_sailed, Height_gain, Tack_count, Gybe_count]"

fun column_text :: "(rat \<Rightarrow> string) \<Rightarrow> boat list \<Rightarrow> WindowStat \<Rightarrow> column \<Rightarrow> string" where
  "column_text expo bs stat Boat_identifier = boat_identifier bs (boat_id stat)"
| "column_text expo bs stat Avg_sog = measure_text expo 2 (avg_sog stat)"
| "column_text expo bs stat Avg_vmg = measure_text expo 2 (avg_vmg stat)"
| "column_text expo bs stat Avg_heading = measure_text expo 1 (avg_heading stat)"
| "column_text expo bs stat Heading_std = measure_text expo 1 (heading_std stat)"
| "column_text expo bs stat Distance_sailed = measure_text expo 0 (distance_sailed stat)"
| "column_text expo bs stat Height_gain = measure_text expo 1 (height_gain stat)"
| "column_text expo bs stat Tack_count = String_int (tack_count stat)"
| "column_text expo bs stat Gybe_count = String_int (gybe_count stat)"

text \<open>The requests among the effects of a method, in order.\<close>

fun requests :: "effect list \<Rightarrow> request list" where
  "requests [] = []"
| "requests (Fetch r # es) = r # requests es"
| "requests (e # es) = requests es"

text \<open>The entries of a query under one name, in order.\<close>

definition getAll :: "string \<Rightarrow> (string \<times> string) list \<Rightarrow> string list" where
  "getAll k q = map snd (filter (\<lambda>e. fst e = k) q)"

section \<open>Shapes of date strings\<close>

text \<open>
  \<open>matches p s\<close>: \<open>s\<close> has the shape \<open>p\<close>, where a \<open>d\<close> in \<open>p\<close> stands for one decimal digit
  and every other character for itself.
\<close>

fun matches :: "string \<Rightarrow> string \<Rightarrow> bool" where
  "matches [] [] = True"
| "matches (p # ps) (c # cs) = ((if p = CHR ''d'' then is_digit c else c = p) \<and> matches ps cs)"
| "matches _ _ = False"

text \<open>
  An ISO 8601 instant in UTC as ECMA-262 writes it: date and time to the millisecond with
  the suffix \<open>Z\<close>, the year with a sign and six digits when four do not hold it.
\<close>

definition iso_utc_instant :: "string \<Rightarrow> bool" where
  "iso_utc_instant s =
     (matches ''dddd-dd-ddTdd:dd:dd.dddZ'' s
      \<or> matches ''+dddddd-dd-ddTdd:dd:dd.dddZ'' s
      \<or> matches ''-dddddd-dd-ddTdd:dd:dd.dddZ'' s)"

text \<open>A number from 0 to 99 written with two digits, a leading zero when below ten.\<close>

definition two_digits :: "int \<Rightarrow> string" where
  "two_digits n = [digit_char (nat n div 10), digit_char (nat n mod 10)]"

text \<open>
  The entries of a request for the boats \<open>bs\<close> and the window from \<open>x\<close> to \<open>y\<close>: one \<open>boats\<close>
  entry per boat, then \<open>t0\<close> and \<open>t1\<close>.
\<close>

definition window_query :: "int list \<Rightarrow> string \<Rightarrow> string \<Rightarrow> (string \<times> string) list" where
  "window_query bs x y = map (\<lambda>b. (''boats'', String_int b)) bs @ [(''t0'', x), (''t1'', y)]"

section \<open>Reading an ISO instant back\<close>

text \<open>
  The time value that a string written by \<open>toISOString\<close> denotes: the day number of the
  date (\<open>MakeDay\<close> of ECMA-262 for a month from 1 to 12), and the time within the day.
\<close>

definition month_start :: "int \<Rightarrow> int \<Rightarrow> int" where
  "month_start m l =
     (if m = 1 then 0 else if m = 2 then 31 else if m = 3 then 59 + l
      else if m = 4 then 90 + l else if m = 5 then 120 + l else if m = 6 then 151 + l
      else if m = 7 then 181 + l else if m = 8 then 212 + l else if m = 9 then 243 + l
      else if m = 10 then 273 + l else if m = 11 then 304 + l else 334 + l)"

definition utc_time :: "int \<Rightarrow> int \<Rightarrow> int \<Rightarrow> int \<Rightarrow> int \<Rightarrow> int \<Rightarrow> int \<Rightarrow> int" where
  "utc_time y mo d h mi s ms =
     (DayFromYear y + month_start mo (if DaysInYear y = 366 then 1 else 0) + d - 1) * msPerDay
     + h * 3600000 + mi * 60000 + s * 1000 + ms"

definition read_year :: "string \<Rightarrow> int" where
  "read_year ys =
     (case ys of
        [] \<Rightarrow> 0
      | c # cs \<Rightarrow>
          if c = CHR ''-'' then - int (read_nat cs)
          else if c = CHR ''+'' then int (read_nat cs)
          else int (read_nat ys))"

definition read_iso :: "string \<Rightarrow> int" where
  "read_iso s =
     (let n = length s - 20;
          r = drop n s
      in utc_time (read_year (take n s))
           (int (read_nat (take 2 (drop 1 r))))
           (int (read_nat (take 2 (drop 4 r))))
           (int (read_nat (take 2 (drop 7 r))))
           (int (read_nat (take 2 (drop 10 r))))
           (int (read_nat (take 2 (drop 13 r))))
           (int (read_nat (take 3 (drop 16 r)))))"

section \<open>Example data\<close>

text \<open>
  A browser two hours ahead of UTC that reads the two picker values and two ISO strings;
  a WindowStat whose measures are binary fractions; servers that answer every request
  alike. Boats 3 and 5 are selected in \<open>example_state\<close>; the stats server reports boat 3
  only.
\<close>

definition example_zone :: "int \<Rightarrow> int" where
  "example_zone t = 7200000"

definition example_parse :: "string \<Rightarrow> int option" where
  "example_parse s =
     (if s = ''2024-05-01T10:00'' then Some 1714550400000
      else if s = ''2024-05-01T10:05'' then Some 1714550700000
      else if s = ''2024-05-01T08:00:00.000Z'' then Some 1714550400000
      else if s = ''0999-06-15T12:00:00.000Z'' then Some (- 30627460800000)
      else None)"

definition example_expo :: "rat \<Rightarrow> string" where
  "example_expo x = ''1e+21''"

definition example_stat :: WindowStat where
  "example_stat = \<lparr>boat_id = 3, avg_sog = Some (Fin (25 / 4)), avg_vmg = Some (Fin (- 17 / 8)),
     avg_heading = Some (Fin (181 / 2)), heading_std = Some (Fin (1 / 16)),
     distance_sailed = Some (Fin (2469 / 2)), height_gain = Some (Fin (- 3 / 64)),
     tack_count = 3, gybe_count = 0\<rparr>"

definition example_stats_server :: "request \<Rightarrow> WindowStat list reply" where
  "example_stats_server r = Ok_body [example_stat]"

definition example_csv_server :: "request \<Rightarrow> string reply" where
  "example_csv_server r = Ok_body ''boat,avg_sog''"

text \<open>
  The answer for a race without a wind direction: the server reports boat 3 only, with
  \<open>null\<close> for the two measures that need the wind.
\<close>

definition example_null_stat :: WindowStat where
  "example_null_stat = example_stat\<lparr>avg_vmg := None, height_gain := None\<rparr>"

definition example_null_server :: "request \<Rightarrow> WindowStat list reply" where
  "example_null_server r = Ok_body [example_null_stat]"

text \<open>
  The four handlers that \<open>UIController.setupSubscriptions\<close> registers, and the state after
  it. The handler of \<open>races\<close> selects the first race when none is selected; the handlers
  that this call reaches, and the other three, work on the page only.
\<close>

datatype ui_handler = Races_handler | SelectedRace_handler | Boats_handler | BoatSelection_handler

definition ui_run :: "ui_handler behaviour" where
  "ui_run h p st =
     (case h of
        Races_handler \<Rightarrow>
          (case p of
             PRaces (r # rs) \<Rightarrow>
               if selectedRaceId st = None \<or> selectedRaceId st = Some 0
               then setSelectedRace page_only (Some (id_race r)) st
               else ([], st)
           | _ \<Rightarrow> ([], st))
      | _ \<Rightarrow> ([], st))"

definition ui_state :: "ui_handler app_state" where
  "ui_state = \<lparr>races = [\<lparr>id_race = 1, name_race = ''Race 1'', start_time = ''2024-05-01T08:00:00''\<rparr>],
     boats = [\<lparr>id_boat = 3, sail_no = ''GBR 12'', label_color = ''#d62728''\<rparr>],
     selectedRaceId = Some 1, selectedBoats = [3],
     listeners = [''races'' \<mapsto> [Races_handler], ''selectedRace'' \<mapsto> [SelectedRace_handler],
       ''boats'' \<mapsto> [Boats_handler], ''boatSelection'' \<mapsto> [BoatSelection_handler]]\<rparr>"

section \<open>Properties of the application state\<close>

lemma forEach_handler_selection:
  assumes "keeps_selection run"
  shows "selectedBoats (snd (forEach_handler run hs p st)) = selectedBoats st"
  using assms
proof (induction hs arbitrary: st)
  case Nil
  then show ?case by simp
next
  case (Cons h hs)
  obtain nested st1 where r: "run h p st = (nested, st1)" by (cases "run h p st")
  obtain rest st2 where f: "forEach_handler run hs p st1 = (rest, st2)"
    by (cases "forEach_handler run hs p st1")
  have "selectedBoats st1 = selectedBoats st"
    using Cons.prems r unfolding keeps_selection_def by (metis snd_conv)
  moreover have "selectedBoats st2 = selectedBoats st1"
    using Cons.IH [OF Cons.prems, of st1] f by simp
  ultimately show ?case using r f by simp
qed

lemma emit_selection:
  "keeps_selection run \<Longrightarrow> selectedBoats (snd (emit run ev p st)) = selectedBoats st"
  by (simp add: emit_def forEach_handler_selection)

lemma page_only_keeps_selection: "keeps_selection page_only"
  by (simp add: keeps_selection_def page_only_def)

text \<open>
  C9: calling \<open>setSelectedRace\<close> with the race id that is already selected changes no field
  of the state and calls no handler, whatever the handlers would do.
\<close>

theorem setSelectedRace_same_noop:
  "setSelectedRace run (selectedRaceId st) st = ([], st)"
  by (simp add: setSelectedRace_def)

text \<open>
  C8 as stated fails: the methods clear the set and then call the handlers, and a handler
  that calls \<open>toggleBoat\<close> while \<open>setBoats\<close> is emitting leaves boat 7 selected.
\<close>

theorem selection_after_reentrant_handler:
  "getSelectedBoats (snd (setBoats selecting [] example_state)) = [7]"
  by (simp add: setBoats_def emit_def example_state_def selecting_def toggleBoat_def
      page_only_def set_add_def getSelectedBoats_def)

lemma forEach_handler_leaves:
  assumes "list_all (leaves_selection run) hs"
  shows "selectedBoats (snd (forEach_handler run hs p st)) = selectedBoats st
       \<and> listeners (snd (forEach_handler run hs p st)) = listeners st"
  using assms
proof (induction hs arbitrary: st)
  case Nil
  then show ?case by simp
next
  case (Cons h hs)
  obtain nested st1 where r: "run h p st = (nested, st1)" by (cases "run h p st")
  obtain rest st2 where f: "forEach_handler run hs p st1 = (rest, st2)"
    by (cases "forEach_handler run hs p st1")
  have h: "leaves_selection run h" and hs: "list_all (leaves_selection run) hs"
    using Cons.prems by simp_all
  have "selectedBoats (snd (run h p st)) = selectedBoats st
      \<and> listeners (snd (run h p st)) = listeners st"
    using h unfolding leaves_selection_def by blast
  then have one: "selectedBoats st1 = selectedBoats st \<and> listeners st1 = listeners st"
    using r by simp
  have "selectedBoats st2 = selectedBoats st1 \<and> listeners st2 = listeners st1"
    using Cons.IH [OF hs, of st1] f by simp
  then show ?case using one r f by simp
qed

lemma emit_leaves:
  assumes "list_all (leaves_selection run) (handlers_of st ev)"
  shows "selectedBoats (snd (emit run ev p st)) = selectedBoats st
       \<and> listeners (snd (emit run ev p st)) = listeners st"
  using forEach_handler_leaves [OF assms, of p st]
  by (simp add: emit_def handlers_of_def)

lemma two_emits_leave:
  assumes "list_all (leaves_selection run) (handlers_of st1 ev1)"
    and "list_all (leaves_selection run) (handlers_of st1 ev2)"
    and "emit run ev1 p1 st1 = (c1, st2)"
    and "emit run ev2 p2 st2 = (c2, st3)"
  shows "selectedBoats st3 = selectedBoats st1"
proof -
  have a: "selectedBoats st2 = selectedBoats st1 \<and> listeners st2 = listeners st1"
    using emit_leaves [OF assms(1), of p1] assms(3) by simp
  then have "handlers_of st2 ev2 = handlers_of st1 ev2" by (simp add: handlers_of_def)
  then have "list_all (leaves_selection run) (handlers_of st2 ev2)" using assms(2) by simp
  then have "selectedBoats st3 = selectedBoats st2"
    using emit_leaves [of run st2 ev2 p2] assms(4) by simp
  then show ?thesis using a by simp
qed

text \<open>
  C8 amended: after \<open>setSelectedRace\<close> with a race id other than the selected one, and
  after \<open>setBoats\<close>, \<open>getSelectedBoats\<close> returns the empty array, provided the handlers
  registered for the three events that these methods emit (\<open>selectedRace\<close>, \<open>boats\<close>,
  \<open>boatSelection\<close>) leave the selection and the registrations as they are while they run.
  The handlers of other events, such as the one of \<open>races\<close>, are free.
\<close>

theorem selection_empty_after_reset:
  assumes "list_all (leaves_selection run) (reset_handlers st)"
  shows "(selectedRaceId st \<noteq> raceId \<longrightarrow>
            getSelectedBoats (snd (setSelectedRace run raceId st)) = [])
         \<and> getSelectedBoats (snd (setBoats run bs st)) = []"
proof -
  have hs: "list_all (leaves_selection run) (handlers_of st ''selectedRace'')"
    "list_all (leaves_selection run) (handlers_of st ''boats'')"
    "list_all (leaves_selection run) (handlers_of st ''boatSelection'')"
    using assms by (simp_all add: reset_handlers_def)
  have a: "getSelectedBoats (snd (setSelectedRace run raceId st)) = []"
    if ne: "selectedRaceId st \<noteq> raceId"
  proof -
    define st1 where "st1 = st\<lparr>selectedRaceId := raceId, selectedBoats := []\<rparr>"
    obtain c1 st2 where e1: "emit run ''selectedRace'' (PRaceId raceId) st1 = (c1, st2)"
      by (cases "emit run ''selectedRace'' (PRaceId raceId) st1")
    obtain c2 st3 where
      e2: "emit run ''boatSelection'' (PBoatIds (getSelectedBoats st2)) st2 = (c2, st3)"
      by (cases "emit run ''boatSelection'' (PBoatIds (getSelectedBoats st2)) st2")
    have h1: "list_all (leaves_selection run) (handlers_of st1 ''selectedRace'')"
      "list_all (leaves_selection run) (handlers_of st1 ''boatSelection'')"
      using hs by (simp_all add: st1_def handlers_of_def)
    have "selectedBoats st3 = selectedBoats st1"
      using h1 e1 e2 by (rule two_emits_leave)
    moreover have "snd (setSelectedRace run raceId st) = st3"
      using ne e1 e2 by (simp add: setSelectedRace_def st1_def)
    ultimately show ?thesis by (simp add: getSelectedBoats_def st1_def)
  qed
  have b: "getSelectedBoats (snd (setBoats run bs st)) = []"
  proof -
    define st1 where "st1 = st\<lparr>boats := bs, selectedBoats := []\<rparr>"
    obtain c1 st2 where e1: "emit run ''boats'' (PBoats bs) st1 = (c1, st2)"
      by (cases "emit run ''boats'' (PBoats bs) st1")
    obtain c2 st3 where
      e2: "emit run ''boatSelection'' (PBoatIds (getSelectedBoats st2)) st2 = (c2, st3)"
      by (cases "emit run ''boatSelection'' (PBoatIds (getSelectedBoats st2)) st2")
    have h1: "list_all (leaves_selection run) (handlers_of st1 ''boats'')"
      "list_all (leaves_selection run) (handlers_of st1 ''boatSelection'')"
      using hs by (simp_all add: st1_def handlers_of_def)
    have "selectedBoats st3 = selectedBoats st1"
      using h1 e1 e2 by (rule two_emits_leave)
    moreover have "snd (setBoats run bs st) = st3"
      using e1 e2 by (simp add: setBoats_def st1_def)
    ultimately show ?thesis by (simp add: getSelectedBoats_def st1_def)
  qed
  from a b show ?thesis by blast
qed

lemma ui_reset_handlers:
  "reset_handlers ui_state = [SelectedRace_handler, Boats_handler, BoatSelection_handler]"
  by (simp add: reset_handlers_def handlers_of_def ui_state_def)

lemma ui_handlers_leave:
  "leaves_selection ui_run SelectedRace_handler" "leaves_selection ui_run Boats_handler"
  "leaves_selection ui_run BoatSelection_handler"
  by (simp_all add: leaves_selection_def ui_run_def)

text \<open>
  The handler of \<open>races\<close> is not of this kind: with no race selected it selects the first
  race, which clears the selection.
\<close>

lemma races_handler_clears:
  "selectedBoats (snd (ui_run Races_handler (PRaces (races ui_state))
       (ui_state\<lparr>selectedRaceId := None\<rparr>))) = []
   \<and> \<not> leaves_selection ui_run Races_handler"
proof -
  have a: "selectedBoats (snd (ui_run Races_handler (PRaces (races ui_state))
       (ui_state\<lparr>selectedRaceId := None\<rparr>))) = []"
    by (simp add: ui_run_def ui_state_def setSelectedRace_def emit_def page_only_def
        getSelectedBoats_def)
  have "selectedBoats (ui_state\<lparr>selectedRaceId := None\<rparr>) \<noteq> []"
    by (simp add: ui_state_def)
  then have "\<not> leaves_selection ui_run Races_handler"
    using a unfolding leaves_selection_def by metis
  then show ?thesis using a by simp
qed

theorem selection_empty_after_reset_witness:
  "list_all (leaves_selection ui_run) (reset_handlers ui_state)
   \<and> selectedRaceId ui_state \<noteq> Some 2
   \<and> getSelectedBoats ui_state = [3]
   \<and> getSelectedBoats (snd (setSelectedRace ui_run (Some 2) ui_state)) = []
   \<and> getSelectedBoats (snd (setBoats ui_run [] ui_state)) = []"
proof -
  have h: "list_all (leaves_selection ui_run) (reset_handlers ui_state)"
    by (simp add: ui_reset_handlers ui_handlers_leave)
  have ne: "selectedRaceId ui_state \<noteq> Some 2" by (simp add: ui_state_def)
  have s: "getSelectedBoats ui_state = [3]" by (simp add: getSelectedBoats_def ui_state_def)
  show ?thesis
    using selection_empty_after_reset [OF h, of "Some 2" "[]"] h ne s by blast
qed

section \<open>Properties of decimal strings\<close>

lemma digit_char_is_digit: "d < 10 \<Longrightarrow> is_digit (digit_char d)"
  unfolding is_digit_def digit_char_def by (rule nth_mem) simp

lemma digit_value_digit_char: "d < 10 \<Longrightarrow> digit_value (digit_char d) = d"
proof -
  assume "d < 10"
  then have "d \<in> {0, 1, 2, 3, 4, 5, 6, 7, 8, 9}" by auto
  then show ?thesis
    by (auto simp: digit_char_def digit_value_def)
qed

lemma String_nat_digits: "list_all is_digit (String_nat n)"
proof (induction n rule: String_nat.induct)
  case (1 n)
  show ?case
  proof (cases "n < 10")
    case True
    then show ?thesis by (simp add: String_nat.simps [of n] digit_char_is_digit)
  next
    case False
    then show ?thesis
      using "1.IH" by (simp add: String_nat.simps [of n] digit_char_is_digit)
  qed
qed

lemma String_nat_nonempty: "String_nat n \<noteq> []"
  by (simp add: String_nat.simps [of n])

lemma read_nat_snoc: "read_nat (s @ [c]) = 10 * read_nat s + digit_value c"
  by (simp add: read_nat_def)

lemma read_nat_String_nat: "read_nat (String_nat n) = n"
proof (induction n rule: String_nat.induct)
  case (1 n)
  show ?case
  proof (cases "n < 10")
    case True
    then show ?thesis
      by (simp add: String_nat.simps [of n] read_nat_def digit_value_digit_char)
  next
    case False
    then have "read_nat (String_nat n) = 10 * (n div 10) + n mod 10"
      using "1.IH" by (simp add: String_nat.simps [of n] read_nat_snoc digit_value_digit_char)
    then show ?thesis by simp
  qed
qed

lemma foldl_zeros: "foldl (\<lambda>a c. 10 * a + digit_value c) 0 (replicate k (CHR ''0'')) = 0"
  by (induction k) (simp_all add: digit_value_def)

lemma read_nat_zeros: "read_nat (replicate k (CHR ''0'') @ s) = read_nat s"
  by (simp add: read_nat_def foldl_zeros)

lemma is_digit_zero: "is_digit (CHR ''0'')"
  by (simp add: is_digit_def)

lemma not_digit_point: "\<not> is_digit (CHR ''.'')"
  by (simp add: is_digit_def)

lemma not_digit_minus: "\<not> is_digit (CHR ''-'')"
  by (simp add: is_digit_def)

lemma takeWhile_digits:
  "list_all P xs \<Longrightarrow> \<not> P y \<Longrightarrow> takeWhile P (xs @ y # ys) = xs"
  by (induction xs) simp_all

lemma dropWhile_digits:
  "list_all P xs \<Longrightarrow> \<not> P y \<Longrightarrow> dropWhile P (xs @ y # ys) = y # ys"
  by (induction xs) simp_all

lemma takeWhile_all: "list_all P xs \<Longrightarrow> takeWhile P xs = xs"
  by (induction xs) simp_all

lemma dropWhile_all: "list_all P xs \<Longrightarrow> dropWhile P xs = []"
  by (induction xs) simp_all

lemma fixed_notation_0: "fixed_notation 0 x = String_nat (nat \<lfloor>x + 1 / 2\<rfloor>)"
  by (simp add: fixed_notation_def)

lemma fixed_notation_split:
  assumes "0 < f"
  shows "\<exists>ip fp. fixed_notation f x = ip @ CHR ''.'' # fp \<and> ip \<noteq> [] \<and> list_all is_digit ip
           \<and> list_all is_digit fp \<and> length fp = f
           \<and> read_nat (ip @ fp) = nat \<lfloor>x * 10 ^ f + 1 / 2\<rfloor>"
proof -
  define n where "n = nat \<lfloor>x * 10 ^ f + 1 / 2\<rfloor>"
  define m where "m = String_nat n"
  define m1 where "m1 = (if length m \<le> f then replicate (f + 1 - length m) (CHR ''0'') @ m else m)"
  define ip where "ip = take (length m1 - f) m1"
  define fp where "fp = drop (length m1 - f) m1"
  have dm: "list_all is_digit m" by (simp add: m_def String_nat_digits)
  have dm1: "list_all is_digit m1"
    using dm by (simp add: m1_def is_digit_zero list_all_iff)
  have len: "f < length m1"
    by (simp add: m1_def)
  have val: "read_nat m1 = n"
    by (simp add: m1_def read_nat_zeros m_def read_nat_String_nat)
  have split: "ip @ fp = m1" by (simp add: ip_def fp_def)
  have "fixed_notation f x = ip @ CHR ''.'' # fp"
    using assms by (simp add: fixed_notation_def Let_def n_def m_def m1_def ip_def fp_def)
  moreover have "ip \<noteq> []" using len by (auto simp: ip_def)
  moreover have "list_all is_digit ip" "list_all is_digit fp"
    using dm1 unfolding ip_def fp_def list_all_iff
    by (auto dest: in_set_takeD in_set_dropD)
  moreover have "length fp = f" using len by (simp add: fp_def)
  moreover have "read_nat (ip @ fp) = nat \<lfloor>x * 10 ^ f + 1 / 2\<rfloor>"
    using val split by (simp add: n_def)
  ultimately show ?thesis by blast
qed

lemma round_half_up_close:
  fixes a :: rat
  assumes "0 \<le> a"
  shows "\<bar>of_nat (nat \<lfloor>a * 10 ^ f + 1 / 2\<rfloor>) / 10 ^ f - a\<bar> \<le> 1 / (2 * 10 ^ f)"
proof -
  define y where "y = a * 10 ^ f"
  define z where "z = \<lfloor>y + 1 / 2\<rfloor>"
  have y0: "0 \<le> y" using assms by (simp add: y_def)
  have z0: "0 \<le> z" using y0 by (simp add: z_def)
  have lo: "of_int z \<le> y + 1 / 2" unfolding z_def by (rule of_int_floor_le)
  have hi: "y + 1 / 2 < of_int z + 1" unfolding z_def by linarith
  have p: "(0::rat) < 10 ^ f" by simp
  have n: "(of_nat (nat z) :: rat) = of_int z" using z0 by simp
  have "\<bar>of_int z - y\<bar> \<le> 1 / 2" using lo hi by linarith
  then have "\<bar>of_int z - y\<bar> / 10 ^ f \<le> (1 / 2) / 10 ^ f"
    by (rule divide_right_mono) simp
  moreover have "\<bar>of_int z - y\<bar> / 10 ^ f = \<bar>of_int z / 10 ^ f - a\<bar>"
  proof -
    have "of_int z / 10 ^ f - a = (of_int z - y) / 10 ^ f"
      using p by (simp add: y_def diff_divide_distrib)
    then show ?thesis using p by (simp add: abs_divide)
  qed
  ultimately show ?thesis using n by (simp add: y_def z_def)
qed

lemma digits_unsigned: "s \<noteq> [] \<Longrightarrow> list_all is_digit s \<Longrightarrow> unsigned s = s \<and> \<not> negative s"
  by (cases s) (auto simp: unsigned_def negative_def not_digit_minus)

lemma unsigned_minus: "unsigned (CHR ''-'' # s) = s" "negative (CHR ''-'' # s)"
  by (simp_all add: unsigned_def negative_def)

lemma unsigned_digits_point:
  "ip \<noteq> [] \<Longrightarrow> list_all is_digit ip \<Longrightarrow> unsigned (ip @ c # fp) = ip @ c # fp \<and> \<not> negative (ip @ c # fp)"
  by (cases ip) (auto simp: unsigned_def negative_def not_digit_minus)

text \<open>The two shapes of a fixed notation, with and without a sign in front.\<close>

lemma fixed_shape_point:
  assumes "ip \<noteq> []" "list_all is_digit ip" "list_all is_digit fp" "u = ip @ CHR ''.'' # fp"
    and "s = u \<or> s = CHR ''-'' # u" and "fp \<noteq> []"
  shows "fixed_decimal (length fp) s"
    and "decimal_value s = (if s = u then 1 else - 1) * (of_nat (read_nat (ip @ fp)) / 10 ^ length fp)"
proof -
  have un: "unsigned s = u"
    using assms unsigned_digits_point [of ip "CHR ''.''" fp] by (auto simp: unsigned_minus)
  have ng: "negative s = (s \<noteq> u)"
    using assms unsigned_digits_point [of ip "CHR ''.''" fp] by (auto simp: unsigned_minus)
  have ipart: "integer_part s = ip"
    using assms un by (simp add: integer_part_def takeWhile_digits not_digit_point)
  have dw: "dropWhile is_digit (unsigned s) = CHR ''.'' # fp"
    using assms un by (simp add: dropWhile_digits not_digit_point)
  have fpart: "fraction_part s = fp"
    unfolding fraction_part_def dw by simp
  show "fixed_decimal (length fp) s"
    using assms ipart fpart dw by (simp add: fixed_decimal_def)
  show "decimal_value s = (if s = u then 1 else - 1) * (of_nat (read_nat (ip @ fp)) / 10 ^ length fp)"
    using ipart fpart ng by (simp add: decimal_value_def)
qed

lemma fixed_shape_whole:
  assumes "u \<noteq> []" "list_all is_digit u" "s = u \<or> s = CHR ''-'' # u"
  shows "fixed_decimal 0 s"
    and "decimal_value s = (if s = u then 1 else - 1) * of_nat (read_nat u)"
proof -
  have un: "unsigned s = u"
    using assms digits_unsigned [of u] by (auto simp: unsigned_minus)
  have ng: "negative s = (s \<noteq> u)"
    using assms digits_unsigned [of u] by (auto simp: unsigned_minus)
  have ipart: "integer_part s = u"
    using assms un by (simp add: integer_part_def takeWhile_all)
  have dw: "dropWhile is_digit (unsigned s) = []"
    using assms un by (simp add: dropWhile_all)
  have fpart: "fraction_part s = []"
    unfolding fraction_part_def dw by simp
  show "fixed_decimal 0 s"
    using assms ipart fpart dw by (simp add: fixed_decimal_def)
  show "decimal_value s = (if s = u then 1 else - 1) * of_nat (read_nat u)"
    using ipart fpart ng by (simp add: decimal_value_def)
qed

lemma fixed_notation_shape:
  fixes a :: rat
  assumes "0 \<le> a" and "s = fixed_notation d a \<or> s = CHR ''-'' # fixed_notation d a"
  shows "fixed_decimal d s"
    and "decimal_value s = (if s = fixed_notation d a then 1 else - 1)
            * (of_nat (nat \<lfloor>a * 10 ^ d + 1 / 2\<rfloor>) / 10 ^ d)"
proof -
  show "fixed_decimal d s"
  proof (cases "d = 0")
    case True
    then show ?thesis
      using assms fixed_shape_whole(1) [of "String_nat (nat \<lfloor>a + 1 / 2\<rfloor>)" s]
      by (simp add: fixed_notation_0 String_nat_nonempty String_nat_digits)
  next
    case False
    then obtain ip fp where h: "fixed_notation d a = ip @ CHR ''.'' # fp" "ip \<noteq> []"
      "list_all is_digit ip" "list_all is_digit fp" "length fp = d"
      using fixed_notation_split [of d a] by auto
    have ne: "fp \<noteq> []" using h(5) False by auto
    show ?thesis
      using fixed_shape_point(1) [OF h(2) h(3) h(4) h(1) _ ne, of s] assms(2) h(5) by auto
  qed
  show "decimal_value s = (if s = fixed_notation d a then 1 else - 1)
            * (of_nat (nat \<lfloor>a * 10 ^ d + 1 / 2\<rfloor>) / 10 ^ d)"
  proof (cases "d = 0")
    case True
    then show ?thesis
      using assms fixed_shape_whole(2) [of "String_nat (nat \<lfloor>a + 1 / 2\<rfloor>)" s]
      by (simp add: fixed_notation_0 String_nat_nonempty String_nat_digits read_nat_String_nat)
  next
    case False
    then obtain ip fp where h: "fixed_notation d a = ip @ CHR ''.'' # fp" "ip \<noteq> []"
      "list_all is_digit ip" "list_all is_digit fp" "length fp = d"
      "read_nat (ip @ fp) = nat \<lfloor>a * 10 ^ d + 1 / 2\<rfloor>"
      using fixed_notation_split [of d a] by auto
    have ne: "fp \<noteq> []" using h(5) False by auto
    show ?thesis
      using fixed_shape_point(2) [OF h(2) h(3) h(4) h(1) _ ne, of s] assms(2) h(5) h(6) by auto
  qed
qed

lemma fixed_notation_not_minus: "fixed_notation d a \<noteq> CHR ''-'' # u"
proof (cases "d = 0")
  case True
  have "list_all is_digit (String_nat (nat \<lfloor>a + 1 / 2\<rfloor>))" by (rule String_nat_digits)
  then show ?thesis using True by (auto simp: fixed_notation_0 not_digit_minus)
next
  case False
  then obtain ip fp where h: "fixed_notation d a = ip @ CHR ''.'' # fp" "ip \<noteq> []"
      "list_all is_digit ip"
    using fixed_notation_split [of d a] by auto
  then show ?thesis by (cases ip) (auto simp: not_digit_minus)
qed

lemma toFixed_plain:
  assumes "\<bar>x\<bar> < 10 ^ 21"
  shows "fixed_decimal d (toFixed expo d (Fin x))"
    and "\<bar>decimal_value (toFixed expo d (Fin x)) - x\<bar> \<le> 1 / (2 * 10 ^ d)"
proof -
  define a where "a = \<bar>x\<bar>"
  define s where "s = toFixed expo d (Fin x)"
  have a0: "0 \<le> a" by (simp add: a_def)
  have sv: "s = (if x < 0 then CHR ''-'' # fixed_notation d a else fixed_notation d a)"
    using assms by (auto simp: s_def a_def Let_def)
  then have alt: "s = fixed_notation d a \<or> s = CHR ''-'' # fixed_notation d a" by auto
  show "fixed_decimal d (toFixed expo d (Fin x))"
    using fixed_notation_shape(1) [OF a0 alt] by (simp add: s_def)
  have pos: "s = fixed_notation d a \<longleftrightarrow> \<not> x < 0"
    using sv fixed_notation_not_minus [of d a "fixed_notation d a"] by auto
  have dv: "decimal_value s = (if x < 0 then - 1 else 1)
      * (of_nat (nat \<lfloor>a * 10 ^ d + 1 / 2\<rfloor>) / 10 ^ d)"
    using fixed_notation_shape(2) [OF a0 alt] pos by auto
  have close: "\<bar>of_nat (nat \<lfloor>a * 10 ^ d + 1 / 2\<rfloor>) / 10 ^ d - a\<bar> \<le> 1 / (2 * 10 ^ d)"
    using a0 by (rule round_half_up_close)
  show "\<bar>decimal_value (toFixed expo d (Fin x)) - x\<bar> \<le> 1 / (2 * 10 ^ d)"
  proof (cases "x < 0")
    case True
    then have "decimal_value s - x = - (of_nat (nat \<lfloor>a * 10 ^ d + 1 / 2\<rfloor>) / 10 ^ d - a)"
      using dv by (simp add: a_def)
    then show ?thesis using close by (simp add: s_def)
  next
    case False
    then have "decimal_value s - x = of_nat (nat \<lfloor>a * 10 ^ d + 1 / 2\<rfloor>) / 10 ^ d - a"
      using dv by (simp add: a_def)
    then show ?thesis using close by (simp add: s_def)
  qed
qed

lemma read_int_String_int: "read_int (String_int i) = i"
proof (cases "i < 0")
  case True
  then show ?thesis
    by (simp add: String_int_def read_int_def unsigned_minus read_nat_String_nat)
next
  case False
  have "unsigned (String_nat (nat i)) = String_nat (nat i) \<and> \<not> negative (String_nat (nat i))"
    by (rule digits_unsigned) (simp_all add: String_nat_nonempty String_nat_digits)
  then show ?thesis
    using False by (simp add: String_int_def read_int_def read_nat_String_nat)
qed

section \<open>Properties of the statistics table\<close>

lemma label_is_identifier:
  "textContent (boat_label (find (\<lambda>b. id_boat b = boat_id stat) bs) stat)
     = boat_identifier bs (boat_id stat)"
  by (induction bs) (simp_all add: boat_label_def textContent_def)

lemma boat_identifier_cases:
  "boat_identifier bs i = String_int i
   \<or> (\<exists>b \<in> set bs. id_boat b = i \<and> sail_no b \<noteq> [] \<and> boat_identifier bs i = sail_no b)"
  by (induction bs) auto

lemma cells_numeric:
  assumes "numeric stat"
  shows "map_sum id (map textContent) (cells expo (find (\<lambda>b. id_boat b = boat_id stat) bs) stat)
     = Inr (map (column_text expo bs stat) column_order)"
proof -
  obtain a b c d e f where m: "avg_sog stat = Some a" "avg_vmg stat = Some b"
    "avg_heading stat = Some c" "heading_std stat = Some d" "distance_sailed stat = Some e"
    "height_gain stat = Some f"
    using assms unfolding numeric_def by auto
  show ?thesis
    by (simp add: cells_def method_toFixed_def m column_order_def measure_text_def
        label_is_identifier)
      (simp add: textContent_def)
qed

lemma cells_null:
  assumes "\<not> numeric stat"
  shows "cells expo b stat = Inl (TypeError ''Cannot read properties of null'')"
  using assms
  by (auto simp: numeric_def cells_def method_toFixed_def split: option.splits)

lemma forEach_stat_rows:
  assumes "\<And>stat. numeric stat \<Longrightarrow> map_sum id (map textContent) (row stat) = Inr (texts stat)"
    and "\<And>stat. \<not> numeric stat \<Longrightarrow> row stat = Inl e"
  shows "forEach_stat row stats
     = (map texts (takeWhile numeric stats), if list_all numeric stats then None else Some e)"
proof (induction stats)
  case Nil
  then show ?case by simp
next
  case (Cons stat stats)
  show ?case
  proof (cases "numeric stat")
    case True
    then obtain cs where r: "row stat = Inr cs" "map textContent cs = texts stat"
      using assms(1) [OF True] by (cases "row stat") auto
    then show ?thesis using True Cons.IH by simp
  next
    case False
    then show ?thesis using assms(2) [OF False] by simp
  qed
qed

lemma main_renderStats_rows:
  "main_renderStats expo bs stats
     = (map (\<lambda>stat. map (column_text expo bs stat) column_order) (takeWhile numeric stats),
        if list_all numeric stats then None
        else Some (TypeError ''Cannot read properties of null''))"
  unfolding main_renderStats_def
  by (rule forEach_stat_rows) (simp_all add: cells_numeric cells_null)

lemma main_renderStats_eq:
  "main_renderStats expo (boats st) stats = renderStatsTable expo st stats"
  by (simp add: main_renderStats_def renderStatsTable_def getBoatById_def)

lemma renderStatsTable_rows:
  "renderStatsTable expo st stats
     = (map (\<lambda>stat. map (column_text expo (boats st) stat) column_order) (takeWhile numeric stats),
        if list_all numeric stats then None
        else Some (TypeError ''Cannot read properties of null''))"
  using main_renderStats_rows [of expo "boats st" stats] by (simp add: main_renderStats_eq)

text \<open>
  C1: the rows of the statistics table stand for the WindowStats of the answer up to the
  first one with a \<open>null\<close> measure, and each of them has nine cells, in the order of the
  columns of the export: boat identifier, avg_sog, avg_vmg, avg_heading, heading_std,
  distance_sailed, height_gain, tack_count, gybe_count. The boat identifier is the boat id
  in decimal, or the sail number of a boat of the list with that id. This holds for the
  table of \<open>UIController.renderStatsTable\<close> and for the one of \<open>refreshStats\<close> in main.js.
\<close>

theorem stats_table_columns:
  "fst (renderStatsTable expo st stats)
     = map (\<lambda>stat. map (column_text expo (boats st) stat) column_order) (takeWhile numeric stats)
   \<and> fst (main_renderStats expo bs stats)
     = map (\<lambda>stat. map (column_text expo bs stat) column_order) (takeWhile numeric stats)
   \<and> column_order = [Boat_identifier, Avg_sog, Avg_vmg, Avg_heading, Heading_std,
        Distance_sailed, Height_gain, Tack_count, Gybe_count]
   \<and> list_all (\<lambda>row. length row = 9) (fst (renderStatsTable expo st stats))
   \<and> list_all (\<lambda>row. length row = 9) (fst (main_renderStats expo bs stats))
   \<and> column_text expo bs stat Boat_identifier = boat_identifier bs (boat_id stat)
   \<and> (boat_identifier bs i = String_int i
        \<or> (\<exists>b \<in> set bs. id_boat b = i \<and> sail_no b \<noteq> [] \<and> boat_identifier bs i = sail_no b))"
proof -
  have nine: "length column_order = 9" by (simp add: column_order_def)
  show ?thesis
    using boat_identifier_cases [of bs i]
    by (simp add: renderStatsTable_rows main_renderStats_rows list_all_iff nine)
      (simp add: column_order_def)
qed

lemma row_of_table:
  assumes "rows = fst (renderStatsTable expo st stats) \<or> rows = fst (main_renderStats expo bs stats)"
    and "i < length rows"
  shows "\<exists>bs'. rows ! i = map (column_text expo bs' (stats ! i)) column_order"
proof -
  obtain bs' where r: "rows = map (\<lambda>stat. map (column_text expo bs' stat) column_order)
      (takeWhile numeric stats)"
    using assms(1) by (auto simp: renderStatsTable_rows main_renderStats_rows)
  have i: "i < length (takeWhile numeric stats)" using assms(2) r by simp
  have "takeWhile numeric stats ! i = stats ! i" using i by (rule takeWhile_nth)
  then have "rows ! i = map (column_text expo bs' (stats ! i)) column_order"
    using r i by simp
  then show ?thesis by blast
qed

lemma measure_text_plain:
  assumes "plain v"
  shows "fixed_decimal d (measure_text expo d v)
     \<and> \<bar>decimal_value (measure_text expo d v) - rat_of v\<bar> \<le> 1 / (2 * 10 ^ d)"
proof -
  obtain x where v: "v = Some (Fin x)" and b: "\<bar>x\<bar> < 10 ^ 21"
    using assms by (auto simp: plain_def split: option.splits jsnum.splits)
  show ?thesis
    using toFixed_plain [OF b] by (simp add: v measure_text_def rat_of_def)
qed

text \<open>
  C2: in every row of the table the measures are written in fixed notation, avg_sog and
  avg_vmg with two decimals, avg_heading and heading_std with one, distance_sailed with
  none, height_gain with one, each within half a unit of its last decimal of the value;
  tack_count and gybe_count are written in full. The measures are numbers that \<open>toFixed\<close>
  writes in fixed notation: finite and below \<open>10^21\<close> in magnitude.
\<close>

theorem stats_table_precision:
  assumes "rows = fst (renderStatsTable expo st stats) \<or> rows = fst (main_renderStats expo bs stats)"
    and "i < length rows"
    and "plain (avg_sog (stats ! i))" and "plain (avg_vmg (stats ! i))"
    and "plain (avg_heading (stats ! i))" and "plain (heading_std (stats ! i))"
    and "plain (distance_sailed (stats ! i))" and "plain (height_gain (stats ! i))"
  shows "fixed_decimal 2 (rows ! i ! 1)
       \<and> \<bar>decimal_value (rows ! i ! 1) - rat_of (avg_sog (stats ! i))\<bar> \<le> 1 / 200
       \<and> fixed_decimal 2 (rows ! i ! 2)
       \<and> \<bar>decimal_value (rows ! i ! 2) - rat_of (avg_vmg (stats ! i))\<bar> \<le> 1 / 200
       \<and> fixed_decimal 1 (rows ! i ! 3)
       \<and> \<bar>decimal_value (rows ! i ! 3) - rat_of (avg_heading (stats ! i))\<bar> \<le> 1 / 20
       \<and> fixed_decimal 1 (rows ! i ! 4)
       \<and> \<bar>decimal_value (rows ! i ! 4) - rat_of (heading_std (stats ! i))\<bar> \<le> 1 / 20
       \<and> fixed_decimal 0 (rows ! i ! 5)
       \<and> \<bar>decimal_value (rows ! i ! 5) - rat_of (distance_sailed (stats ! i))\<bar> \<le> 1 / 2
       \<and> fixed_decimal 1 (rows ! i ! 6)
       \<and> \<bar>decimal_value (rows ! i ! 6) - rat_of (height_gain (stats ! i))\<bar> \<le> 1 / 20
       \<and> rows ! i ! 7 = String_int (tack_count (stats ! i))
       \<and> read_int (rows ! i ! 7) = tack_count (stats ! i)
       \<and> rows ! i ! 8 = String_int (gybe_count (stats ! i))
       \<and> read_int (rows ! i ! 8) = gybe_count (stats ! i)"
proof -
  obtain bs' where row: "rows ! i = map (column_text expo bs' (stats ! i)) column_order"
    using row_of_table [OF assms(1) assms(2)] by blast
  have c1: "rows ! i ! 1 = measure_text expo 2 (avg_sog (stats ! i))"
    and c2: "rows ! i ! 2 = measure_text expo 2 (avg_vmg (stats ! i))"
    and c3: "rows ! i ! 3 = measure_text expo 1 (avg_heading (stats ! i))"
    and c4: "rows ! i ! 4 = measure_text expo 1 (heading_std (stats ! i))"
    and c5: "rows ! i ! 5 = measure_text expo 0 (distance_sailed (stats ! i))"
    and c6: "rows ! i ! 6 = measure_text expo 1 (height_gain (stats ! i))"
    and c7: "rows ! i ! 7 = String_int (tack_count (stats ! i))"
    and c8: "rows ! i ! 8 = String_int (gybe_count (stats ! i))"
    by (simp_all add: row column_order_def)
  have p1: "fixed_decimal 2 (rows ! i ! 1)
      \<and> \<bar>decimal_value (rows ! i ! 1) - rat_of (avg_sog (stats ! i))\<bar> \<le> 1 / 200"
    using measure_text_plain [OF assms(3), of 2 expo] unfolding c1 by simp
  have p2: "fixed_decimal 2 (rows ! i ! 2)
      \<and> \<bar>decimal_value (rows ! i ! 2) - rat_of (avg_vmg (stats ! i))\<bar> \<le> 1 / 200"
    using measure_text_plain [OF assms(4), of 2 expo] unfolding c2 by simp
  have p3: "fixed_decimal 1 (rows ! i ! 3)
      \<and> \<bar>decimal_value (rows ! i ! 3) - rat_of (avg_heading (stats ! i))\<bar> \<le> 1 / 20"
    using measure_text_plain [OF assms(5), of 1 expo] unfolding c3 by simp
  have p4: "fixed_decimal 1 (rows ! i ! 4)
      \<and> \<bar>decimal_value (rows ! i ! 4) - rat_of (heading_std (stats ! i))\<bar> \<le> 1 / 20"
    using measure_text_plain [OF assms(6), of 1 expo] unfolding c4 by simp
  have p5: "fixed_decimal 0 (rows ! i ! 5)
      \<and> \<bar>decimal_value (rows ! i ! 5) - rat_of (distance_sailed (stats ! i))\<bar> \<le> 1 / 2"
    using measure_text_plain [OF assms(7), of 0 expo] unfolding c5 by simp
  have p6: "fixed_decimal 1 (rows ! i ! 6)
      \<and> \<bar>decimal_value (rows ! i ! 6) - rat_of (height_gain (stats ! i))\<bar> \<le> 1 / 20"
    using measure_text_plain [OF assms(8), of 1 expo] unfolding c6 by simp
  have p7: "read_int (rows ! i ! 7) = tack_count (stats ! i)"
    by (simp add: c7 read_int_String_int)
  have p8: "read_int (rows ! i ! 8) = gybe_count (stats ! i)"
    by (simp add: c8 read_int_String_int)
  from p1 p2 p3 p4 p5 p6 p7 p8 c7 c8 show ?thesis by blast
qed

lemma example_stat_plain:
  "plain (avg_sog ([example_stat] ! 0))" "plain (avg_vmg ([example_stat] ! 0))"
  "plain (avg_heading ([example_stat] ! 0))" "plain (heading_std ([example_stat] ! 0))"
  "plain (distance_sailed ([example_stat] ! 0))" "plain (height_gain ([example_stat] ! 0))"
  by (simp_all add: example_stat_def plain_def)

lemma example_row:
  "renderStatsTable example_expo example_state [example_stat]
     = ([[''GBR 12'', ''6.25'', ''-2.13'', ''90.5'', ''0.1'', ''1235'', ''-0.0'', ''3'', ''0'']], None)"
  by code_simp

theorem stats_table_precision_witness:
  "fst (renderStatsTable example_expo example_state [example_stat])
     = [[''GBR 12'', ''6.25'', ''-2.13'', ''90.5'', ''0.1'', ''1235'', ''-0.0'', ''3'', ''0'']]
   \<and> (0::nat) < length (fst (renderStatsTable example_expo example_state [example_stat]))
   \<and> plain (avg_sog example_stat) \<and> plain (avg_vmg example_stat)
   \<and> plain (avg_heading example_stat) \<and> plain (heading_std example_stat)
   \<and> plain (distance_sailed example_stat) \<and> plain (height_gain example_stat)
   \<and> fixed_decimal 2 (fst (renderStatsTable example_expo example_state [example_stat]) ! 0 ! 1)
   \<and> \<bar>decimal_value (fst (renderStatsTable example_expo example_state [example_stat]) ! 0 ! 1)
        - rat_of (avg_sog example_stat)\<bar> \<le> 1 / 200
   \<and> fixed_decimal 2 (fst (renderStatsTable example_expo example_state [example_stat]) ! 0 ! 2)
   \<and> fixed_decimal 1 (fst (renderStatsTable example_expo example_state [example_stat]) ! 0 ! 3)
   \<and> fixed_decimal 1 (fst (renderStatsTable example_expo example_state [example_stat]) ! 0 ! 4)
   \<and> fixed_decimal 0 (fst (renderStatsTable example_expo example_state [example_stat]) ! 0 ! 5)
   \<and> \<bar>decimal_value (fst (renderStatsTable example_expo example_state [example_stat]) ! 0 ! 5)
        - rat_of (distance_sailed example_stat)\<bar> \<le> 1 / 2
   \<and> fixed_decimal 1 (fst (renderStatsTable example_expo example_state [example_stat]) ! 0 ! 6)
   \<and> read_int (fst (renderStatsTable example_expo example_state [example_stat]) ! 0 ! 7)
        = tack_count example_stat
   \<and> read_int (fst (renderStatsTable example_expo example_state [example_stat]) ! 0 ! 8)
        = gybe_count example_stat"
proof -
  have l: "(0::nat) < length (fst (renderStatsTable example_expo example_state [example_stat]))"
    by (simp add: example_row)
  have s: "[example_stat] ! 0 = example_stat" by simp
  have r: "fst (renderStatsTable example_expo example_state [example_stat])
     = [[''GBR 12'', ''6.25'', ''-2.13'', ''90.5'', ''0.1'', ''1235'', ''-0.0'', ''3'', ''0'']]"
    by (simp add: example_row)
  note t = stats_table_precision [where expo = example_expo and st = example_state
      and stats = "[example_stat]" and i = 0 and bs = "[]", OF disjI1 [OF refl] l example_stat_plain]
  show ?thesis
    using t example_stat_plain r l unfolding s by blast
qed

section \<open>Properties of the requests and of the table\<close>

lemma append_boats_eq: "append_boats bs q = q @ map (\<lambda>b. (''boats'', String_int b)) bs"
  by (induction bs arbitrary: q) (simp_all add: search_append_def)

lemma getAll_boats:
  "getAll ''boats'' (map (\<lambda>b. (''boats'', String_int b)) bs @ [(''t0'', x), (''t1'', y)] @ rest)
     = map String_int bs @ getAll ''boats'' rest"
  by (induction bs) (simp_all add: getAll_def)

lemma getStats_twd:
  "getStats \<lparr>p_boats = bs, p_t0 = Some x, p_t1 = Some y, p_ref = Some ''twd'', p_legId = None,
      p_downsample = None\<rparr>
     = \<lparr>path = ''/stats'',
        search = map (\<lambda>b. (''boats'', String_int b)) bs @ [(''t0'', x), (''t1'', y), (''ref'', ''twd'')]\<rparr>"
  by (simp add: getStats_def append_boats_eq search_append_def String_opt_def)

lemma getWindowRange_Some:
  "getWindowRange parse start end = Inr (Some (x, y)) \<longleftrightarrow>
     start \<noteq> [] \<and> end \<noteq> []
     \<and> (\<exists>a b. new_Date parse start = Some a \<and> new_Date parse end = Some b
           \<and> x = toISOString a \<and> y = toISOString b)"
  by (auto simp: getWindowRange_def split: option.splits)

lemma main_iso_Inr: "main_iso parse v = Inr x \<longleftrightarrow> (\<exists>a. new_Date parse v = Some a \<and> x = toISOString a)"
  by (auto simp: main_iso_def split: option.splits)

lemma refreshStats_ok:
  assumes "getSelectedBoats st \<noteq> []"
    and "getWindowRange parse start end = Inr (Some (x, y))"
    and "req = \<lparr>path = ''/stats'',
           search = map (\<lambda>b. (''boats'', String_int b)) (getSelectedBoats st)
             @ [(''t0'', x), (''t1'', y), (''ref'', ''twd'')]\<rparr>"
    and "server req = Ok_body stats"
  shows "refreshStats parse expo server st start end
           = ([Fetch req, StatsTable (fst (renderStatsTable expo st stats))],
              snd (renderStatsTable expo st stats))"
  using assms by (simp add: refreshStats_def getStats_twd api_request_def case_prod_beta)

lemma main_refreshStats_ok:
  assumes "sel \<noteq> []"
    and "getWindowRange parse start end = Inr (Some (x, y))"
    and "req = \<lparr>path = ''/stats'',
           search = map (\<lambda>b. (''boats'', String_int b)) sel
             @ [(''t0'', x), (''t1'', y), (''ref'', ''twd'')]\<rparr>"
    and "server req = Ok_body stats"
  shows "main_refreshStats parse expo server sel bs start end
           = ([Fetch req, StatsTable (fst (main_renderStats expo bs stats))],
              snd (main_renderStats expo bs stats))"
proof -
  obtain a b where h: "start \<noteq> []" "end \<noteq> []" "new_Date parse start = Some a"
      "new_Date parse end = Some b" "x = toISOString a" "y = toISOString b"
    using assms(2) unfolding getWindowRange_Some by blast
  show ?thesis
    using assms(1,3,4) h
    by (simp add: main_refreshStats_def main_iso_def append_boats_eq search_append_def
        api_request_def case_prod_beta)
qed

lemma stats_requests:
  assumes "Fetch r \<in> set (fst (refreshStats parse expo server st start end))
      \<or> Fetch r \<in> set (fst (main_refreshStats parse expo server (getSelectedBoats st) bs start end))"
  shows "\<exists>x y. r = \<lparr>path = ''/stats'',
           search = map (\<lambda>b. (''boats'', String_int b)) (getSelectedBoats st)
             @ [(''t0'', x), (''t1'', y), (''ref'', ''twd'')]\<rparr>"
  using assms
proof
  assume "Fetch r \<in> set (fst (refreshStats parse expo server st start end))"
  then show ?thesis
    by (auto simp: refreshStats_def getStats_twd Let_def case_prod_beta
        split: sum.splits option.splits if_splits prod.splits)
next
  assume "Fetch r \<in> set (fst (main_refreshStats parse expo server (getSelectedBoats st) bs start end))"
  then show ?thesis
    by (auto simp: main_refreshStats_def append_boats_eq search_append_def Let_def case_prod_beta
        split: sum.splits option.splits if_splits prod.splits)
qed

lemma takeWhile_all_numeric: "list_all numeric stats \<Longrightarrow> takeWhile numeric stats = stats"
  by (induction stats) simp_all

lemma example_window:
  "getWindowRange example_parse ''2024-05-01T10:00'' ''2024-05-01T10:05''
     = Inr (Some (''2024-05-01T08:00:00.000Z'', ''2024-05-01T08:05:00.000Z''))"
  by code_simp

lemma example_selection: "getSelectedBoats example_state = [3, 5]"
  by (simp add: getSelectedBoats_def example_state_def)

lemma example_ids: "String_int 3 = ''3''" "String_int 5 = ''5''"
  by code_simp+

lemma example_null_row:
  "renderStatsTable example_expo example_state [example_null_stat]
     = ([], Some (TypeError ''Cannot read properties of null''))"
  by (simp add: renderStatsTable_rows numeric_def example_null_stat_def)

text \<open>
  C6 as stated fails: boats 3 and 5 are selected and the server answers, for a race
  without a wind direction, with the WindowStat of boat 3 only, whose avg_vmg and
  height_gain are \<open>null\<close>. The table is emptied, no row is rendered, and the refresh is
  rejected with the TypeError of \<open>toFixed\<close> on \<open>null\<close>.
\<close>

theorem partial_stats_with_null_rejected:
  "refreshStats example_parse example_expo example_null_server example_state
       ''2024-05-01T10:00'' ''2024-05-01T10:05''
     = ([Fetch \<lparr>path = ''/stats'',
           search = [(''boats'', ''3''), (''boats'', ''5''),
             (''t0'', ''2024-05-01T08:00:00.000Z''), (''t1'', ''2024-05-01T08:05:00.000Z''),
             (''ref'', ''twd'')]\<rparr>,
         StatsTable []],
        Some (TypeError ''Cannot read properties of null''))"
proof -
  have sel: "getSelectedBoats example_state \<noteq> []" by (simp add: example_selection)
  have "refreshStats example_parse example_expo example_null_server example_state
       ''2024-05-01T10:00'' ''2024-05-01T10:05''
     = ([Fetch \<lparr>path = ''/stats'',
           search = map (\<lambda>b. (''boats'', String_int b)) (getSelectedBoats example_state)
             @ [(''t0'', ''2024-05-01T08:00:00.000Z''), (''t1'', ''2024-05-01T08:05:00.000Z''),
                (''ref'', ''twd'')]\<rparr>,
         StatsTable (fst (renderStatsTable example_expo example_state [example_null_stat]))],
        snd (renderStatsTable example_expo example_state [example_null_stat]))"
    by (rule refreshStats_ok [OF sel example_window refl]) (simp add: example_null_server_def)
  then show ?thesis
    by (simp add: example_selection example_ids example_null_row)
qed

text \<open>
  C6 amended: when the stats endpoint answers a query for the selected boats with a list
  that lacks some of them, and every WindowStat of the answer has numbers for its six
  measures, the table gets one row per WindowStat of the answer, in both clients, and the
  refresh ends without an error: no row stands for a boat that is not in the answer. The
  window is one that both pickers give and the browser can read.
\<close>

theorem partial_stats_rendered:
  assumes "getSelectedBoats st \<noteq> []"
    and "getWindowRange parse start end = Inr (Some (x, y))"
    and "req = \<lparr>path = ''/stats'',
           search = map (\<lambda>b. (''boats'', String_int b)) (getSelectedBoats st)
             @ [(''t0'', x), (''t1'', y), (''ref'', ''twd'')]\<rparr>"
    and "server req = Ok_body stats"
    and "list_all numeric stats"
    and "rows = map (\<lambda>stat. map (column_text expo (boats st) stat) column_order) stats"
  shows "refreshStats parse expo server st start end = ([Fetch req, StatsTable rows], None)
       \<and> main_refreshStats parse expo server (getSelectedBoats st) (boats st) start end
           = ([Fetch req, StatsTable rows], None)
       \<and> length rows = length stats
       \<and> map (\<lambda>row. row ! 0) rows = map (\<lambda>stat. boat_identifier (boats st) (boat_id stat)) stats"
proof -
  have r: "renderStatsTable expo st stats = (rows, None)"
    "main_renderStats expo (boats st) stats = (rows, None)"
    using assms(5,6)
    by (simp_all add: renderStatsTable_rows main_renderStats_rows takeWhile_all_numeric)
  have l: "map (\<lambda>row. row ! 0) rows = map (\<lambda>stat. boat_identifier (boats st) (boat_id stat)) stats"
    by (simp add: assms(6) column_order_def)
  show ?thesis
    using refreshStats_ok [where server = server and req = req, OF assms(1-4), of expo]
      main_refreshStats_ok [where server = server and req = req, OF assms(1-4), of expo "boats st"]
      l
    by (simp add: r assms(6))
qed

theorem partial_stats_rendered_witness:
  "getSelectedBoats example_state = [3, 5]
   \<and> getWindowRange example_parse ''2024-05-01T10:00'' ''2024-05-01T10:05''
       = Inr (Some (''2024-05-01T08:00:00.000Z'', ''2024-05-01T08:05:00.000Z''))
   \<and> map boat_id [example_stat] = [3]
   \<and> list_all numeric [example_stat]
   \<and> refreshStats example_parse example_expo example_stats_server example_state
         ''2024-05-01T10:00'' ''2024-05-01T10:05''
       = ([Fetch \<lparr>path = ''/stats'',
             search = [(''boats'', ''3''), (''boats'', ''5''),
               (''t0'', ''2024-05-01T08:00:00.000Z''), (''t1'', ''2024-05-01T08:05:00.000Z''),
               (''ref'', ''twd'')]\<rparr>,
           StatsTable [[''GBR 12'', ''6.25'', ''-2.13'', ''90.5'', ''0.1'', ''1235'', ''-0.0'',
             ''3'', ''0'']]], None)"
proof -
  have sel: "getSelectedBoats example_state \<noteq> []" by (simp add: example_selection)
  have ans: "example_stats_server \<lparr>path = ''/stats'',
           search = map (\<lambda>b. (''boats'', String_int b)) (getSelectedBoats example_state)
             @ [(''t0'', ''2024-05-01T08:00:00.000Z''), (''t1'', ''2024-05-01T08:05:00.000Z''),
                (''ref'', ''twd'')]\<rparr> = Ok_body [example_stat]"
    by (simp add: example_stats_server_def)
  have n: "list_all numeric [example_stat]" by (simp add: numeric_def example_stat_def)
  have rows: "map (\<lambda>stat. map (column_text example_expo (boats example_state) stat) column_order)
      [example_stat]
     = [[''GBR 12'', ''6.25'', ''-2.13'', ''90.5'', ''0.1'', ''1235'', ''-0.0'', ''3'', ''0'']]"
    using example_row n by (simp add: renderStatsTable_rows)
  note t = partial_stats_rendered [where server = example_stats_server and expo = example_expo,
      OF sel example_window refl ans n refl]
  have b: "map boat_id [example_stat] = [3]" by (simp add: example_stat_def)
  have "refreshStats example_parse example_expo example_stats_server example_state
         ''2024-05-01T10:00'' ''2024-05-01T10:05''
       = ([Fetch \<lparr>path = ''/stats'',
             search = [(''boats'', ''3''), (''boats'', ''5''),
               (''t0'', ''2024-05-01T08:00:00.000Z''), (''t1'', ''2024-05-01T08:05:00.000Z''),
               (''ref'', ''twd'')]\<rparr>,
           StatsTable [[''GBR 12'', ''6.25'', ''-2.13'', ''90.5'', ''0.1'', ''1235'', ''-0.0'',
             ''3'', ''0'']]], None)"
    using t [THEN conjunct1] unfolding rows by (simp add: example_selection example_ids)
  then show ?thesis
    using example_window b n by (simp add: example_selection)
qed

lemma getAll_boats_only:
  "getAll ''boats'' (map (\<lambda>b. (''boats'', String_int b)) bs) = map String_int bs"
  by (induction bs) (simp_all add: getAll_def)

lemma getAll_append: "getAll k (q @ q') = getAll k q @ getAll k q'"
  by (simp add: getAll_def)

lemma getStats_boats: "getAll ''boats'' (search (getStats p)) = map String_int (p_boats p)"
  by (simp add: getStats_def Let_def append_boats_eq search_append_def getAll_append
      getAll_boats_only split: option.splits)
    (simp add: getAll_def)

lemma toggleBoat_selection:
  assumes "keeps_selection run"
  shows "getSelectedBoats (snd (toggleBoat run b True st))
           = (if b \<in> set (getSelectedBoats st) then getSelectedBoats st
              else getSelectedBoats st @ [b])"
    and "getSelectedBoats (snd (toggleBoat run b False st))
           = filter (\<lambda>y. y \<noteq> b) (getSelectedBoats st)"
  using emit_selection [OF assms]
  by (simp_all add: toggleBoat_def getSelectedBoats_def set_add_def set_delete_def)

text \<open>
  C7: row \<open>i\<close> of the table is made from element \<open>i\<close> of the answer, in both clients, which
  render the same number of rows: all of them when every WindowStat has numbers for its
  measures, and those before the first that has not otherwise. The \<open>boats\<close> entries of a
  stats request are the selected boat ids in the order in which \<open>getSelectedBoats\<close>
  returns them, and \<open>ApiClient.getStats\<close> keeps the order of the ids it is given; that
  order is the order of insertion: selecting a boat that is not selected puts it last, and
  deselecting one keeps the order of the others.
\<close>

theorem table_and_query_order:
  assumes "i < length (fst (renderStatsTable expo st stats))"
    and "Fetch r \<in> set (fst (refreshStats parse expo server st start end))
      \<or> Fetch r \<in> set (fst (main_refreshStats parse expo server (getSelectedBoats st) bs start end))"
    and "keeps_selection run"
  shows "fst (renderStatsTable expo st stats) ! i
           = map (column_text expo (boats st) (stats ! i)) column_order
       \<and> fst (main_renderStats expo bs stats) ! i
           = map (column_text expo bs (stats ! i)) column_order
       \<and> length (fst (main_renderStats expo bs stats)) = length (fst (renderStatsTable expo st stats))
       \<and> length (fst (renderStatsTable expo st stats)) \<le> length stats
       \<and> (list_all numeric stats \<longrightarrow> length (fst (renderStatsTable expo st stats)) = length stats)
       \<and> getAll ''boats'' (search r) = map String_int (getSelectedBoats st)
       \<and> getAll ''boats'' (search (getStats p)) = map String_int (p_boats p)
       \<and> getSelectedBoats (snd (toggleBoat run b True st))
           = (if b \<in> set (getSelectedBoats st) then getSelectedBoats st
              else getSelectedBoats st @ [b])
       \<and> getSelectedBoats (snd (toggleBoat run b False st))
           = filter (\<lambda>y. y \<noteq> b) (getSelectedBoats st)"
proof -
  have i: "i < length (takeWhile numeric stats)"
    using assms(1) by (simp add: renderStatsTable_rows)
  have n: "takeWhile numeric stats ! i = stats ! i" using i by (rule takeWhile_nth)
  have rows: "fst (renderStatsTable expo st stats) ! i
           = map (column_text expo (boats st) (stats ! i)) column_order"
    "fst (main_renderStats expo bs stats) ! i
           = map (column_text expo bs (stats ! i)) column_order"
    using i n by (simp_all add: renderStatsTable_rows main_renderStats_rows)
  have len: "length (fst (main_renderStats expo bs stats)) = length (fst (renderStatsTable expo st stats))"
    "length (fst (renderStatsTable expo st stats)) \<le> length stats"
    "list_all numeric stats \<Longrightarrow> length (fst (renderStatsTable expo st stats)) = length stats"
    by (simp_all add: renderStatsTable_rows main_renderStats_rows length_takeWhile_le
        takeWhile_all_numeric)
  obtain x y where r: "r = \<lparr>path = ''/stats'',
           search = map (\<lambda>b. (''boats'', String_int b)) (getSelectedBoats st)
             @ [(''t0'', x), (''t1'', y), (''ref'', ''twd'')]\<rparr>"
    using stats_requests [OF assms(2)] by blast
  have q: "getAll ''boats'' (search r) = map String_int (getSelectedBoats st)"
    unfolding r by (simp add: getAll_append getAll_boats_only) (simp add: getAll_def)
  show ?thesis
    using rows len q getStats_boats [of p] toggleBoat_selection [OF assms(3), of b st]
    by blast
qed

lemma example_refreshStats:
  "refreshStats example_parse example_expo example_stats_server example_state
       ''2024-05-01T10:00'' ''2024-05-01T10:05''
     = ([Fetch \<lparr>path = ''/stats'',
           search = [(''boats'', ''3''), (''boats'', ''5''),
             (''t0'', ''2024-05-01T08:00:00.000Z''), (''t1'', ''2024-05-01T08:05:00.000Z''),
             (''ref'', ''twd'')]\<rparr>,
         StatsTable [[''GBR 12'', ''6.25'', ''-2.13'', ''90.5'', ''0.1'', ''1235'', ''-0.0'', ''3'', ''0'']]],
        None)"
proof -
  have sel: "getSelectedBoats example_state \<noteq> []" by (simp add: example_selection)
  have "refreshStats example_parse example_expo example_stats_server example_state
       ''2024-05-01T10:00'' ''2024-05-01T10:05''
     = ([Fetch \<lparr>path = ''/stats'',
           search = map (\<lambda>b. (''boats'', String_int b)) (getSelectedBoats example_state)
             @ [(''t0'', ''2024-05-01T08:00:00.000Z''), (''t1'', ''2024-05-01T08:05:00.000Z''),
                (''ref'', ''twd'')]\<rparr>,
         StatsTable (fst (renderStatsTable example_expo example_state [example_stat]))],
        snd (renderStatsTable example_expo example_state [example_stat]))"
    by (rule refreshStats_ok [OF sel example_window refl]) (simp add: example_stats_server_def)
  then show ?thesis
    by (simp add: example_selection example_ids example_row)
qed

theorem table_and_query_order_witness:
  "(0::nat) < length (fst (renderStatsTable example_expo example_state [example_stat]))
   \<and> Fetch \<lparr>path = ''/stats'',
           search = [(''boats'', ''3''), (''boats'', ''5''),
             (''t0'', ''2024-05-01T08:00:00.000Z''), (''t1'', ''2024-05-01T08:05:00.000Z''),
             (''ref'', ''twd'')]\<rparr>
       \<in> set (fst (refreshStats example_parse example_expo example_stats_server example_state
             ''2024-05-01T10:00'' ''2024-05-01T10:05''))
   \<and> keeps_selection (page_only :: nat behaviour)
   \<and> getSelectedBoats example_state = [3, 5]
   \<and> fst (renderStatsTable example_expo example_state [example_stat]) ! 0
       = map (column_text example_expo (boats example_state) ([example_stat] ! 0)) column_order
   \<and> fst (renderStatsTable example_expo example_state [example_stat]) ! 0
       = [''GBR 12'', ''6.25'', ''-2.13'', ''90.5'', ''0.1'', ''1235'', ''-0.0'', ''3'', ''0'']
   \<and> getAll ''boats'' [(''boats'', ''3''), (''boats'', ''5''),
             (''t0'', ''2024-05-01T08:00:00.000Z''), (''t1'', ''2024-05-01T08:05:00.000Z''),
             (''ref'', ''twd'')]
       = map String_int (getSelectedBoats example_state)
   \<and> map String_int (getSelectedBoats example_state) = [''3'', ''5'']
   \<and> getSelectedBoats (snd (toggleBoat page_only 9 True example_state)) = [3, 5, 9]
   \<and> getSelectedBoats (snd (toggleBoat page_only 3 False example_state)) = [5]"
proof -
  let ?r = "\<lparr>path = ''/stats'',
           search = [(''boats'', ''3''), (''boats'', ''5''),
             (''t0'', ''2024-05-01T08:00:00.000Z''), (''t1'', ''2024-05-01T08:05:00.000Z''),
             (''ref'', ''twd'')]\<rparr>"
  have l: "(0::nat) < length (fst (renderStatsTable example_expo example_state [example_stat]))"
    by (simp add: example_row)
  have m: "Fetch ?r \<in> set (fst (refreshStats example_parse example_expo example_stats_server
      example_state ''2024-05-01T10:00'' ''2024-05-01T10:05''))"
    by (simp add: example_refreshStats)
  have k: "keeps_selection (page_only :: nat behaviour)" by (rule page_only_keeps_selection)
  note t9 = table_and_query_order [where run = page_only and b = 9 and bs = "[]", OF l disjI1 [OF m] k]
  note t3 = table_and_query_order [where run = page_only and b = 3 and bs = "[]", OF l disjI1 [OF m] k]
  have a: "getSelectedBoats (snd (toggleBoat page_only 9 True example_state)) = [3, 5, 9]"
    using t9 by (simp add: example_selection)
  have b: "getSelectedBoats (snd (toggleBoat page_only 3 False example_state)) = [5]"
    using t3 by (simp add: example_selection)
  have c: "getAll ''boats'' (search ?r) = map String_int (getSelectedBoats example_state)"
    using t9 by blast
  have d: "fst (renderStatsTable example_expo example_state [example_stat]) ! 0
       = map (column_text example_expo (boats example_state) ([example_stat] ! 0)) column_order"
    using t9 by blast
  have e: "fst (renderStatsTable example_expo example_state [example_stat]) ! 0
       = [''GBR 12'', ''6.25'', ''-2.13'', ''90.5'', ''0.1'', ''1235'', ''-0.0'', ''3'', ''0'']"
    by (simp add: example_row)
  have f: "getAll ''boats'' [(''boats'', ''3''), (''boats'', ''5''),
             (''t0'', ''2024-05-01T08:00:00.000Z''), (''t1'', ''2024-05-01T08:05:00.000Z''),
             (''ref'', ''twd'')]
       = map String_int (getSelectedBoats example_state)"
    using c by simp
  have g: "map String_int (getSelectedBoats example_state) = [''3'', ''5'']"
    by (simp add: example_selection example_ids)
  have s: "getSelectedBoats example_state = [3, 5]" by (rule example_selection)
  show ?thesis
    using l m k s d e f g a b by blast
qed

section \<open>Properties of dates\<close>

lemma div_succ:
  fixes x m :: int
  assumes "0 < m"
  shows "(x + 1) div m = x div m + (if (x + 1) mod m = 0 then 1 else 0)"
proof -
  define r where "r = x mod m"
  have r: "0 \<le> r" "r < m" using assms by (simp_all add: r_def)
  have x: "x = m * (x div m) + r" by (simp add: r_def)
  show ?thesis
  proof (cases "r + 1 < m")
    case True
    have e: "x + 1 = m * (x div m) + (r + 1)" using x by simp
    have "(x + 1) div m = x div m"
      by (rule int_div_pos_eq [OF e]) (use r True in simp_all)
    moreover have "(x + 1) mod m = r + 1"
      by (rule int_mod_pos_eq [OF e]) (use r True in simp_all)
    ultimately show ?thesis using r by simp
  next
    case False
    then have rm: "r + 1 = m" using r by simp
    have e: "x + 1 = m * (x div m + 1) + 0"
      using x rm by (simp add: algebra_simps)
    have "(x + 1) div m = x div m + 1"
      by (rule int_div_pos_eq [OF e]) (use assms in simp_all)
    moreover have "(x + 1) mod m = 0"
      by (rule int_mod_pos_eq [OF e]) (use assms in simp_all)
    ultimately show ?thesis by simp
  qed
qed

lemma mod_shift:
  fixes y :: int
  shows "(y - 1968) mod 4 = y mod 4" "(y - 1900) mod 100 = y mod 100"
    "(y - 1600) mod 400 = y mod 400"
  using mod_mult_self2 [of y 4 "- 492"] mod_mult_self2 [of y 100 "- 19"]
    mod_mult_self2 [of y 400 "- 4"]
  by simp_all

lemma leap_divisors:
  fixes y :: int
  shows "y mod 100 = 0 \<Longrightarrow> y mod 4 = 0" "y mod 400 = 0 \<Longrightarrow> y mod 100 = 0"
proof -
  have a: "(4::int) dvd 100" "(100::int) dvd 400" by simp_all
  show "y mod 100 = 0 \<Longrightarrow> y mod 4 = 0"
    using a(1) by (meson dvd_trans mod_eq_0_iff_dvd)
  show "y mod 400 = 0 \<Longrightarrow> y mod 100 = 0"
    using a(2) by (meson dvd_trans mod_eq_0_iff_dvd)
qed

lemma DayFromYear_Suc: "DayFromYear (y + 1) = DayFromYear y + DaysInYear y"
proof -
  have a: "(y + 1 - 1969) div 4 = (y - 1969) div 4 + (if y mod 4 = 0 then 1 else 0)"
    using div_succ [of 4 "y - 1969"] mod_shift(1) [of y] by (simp add: algebra_simps)
  have b: "(y + 1 - 1901) div 100 = (y - 1901) div 100 + (if y mod 100 = 0 then 1 else 0)"
    using div_succ [of 100 "y - 1901"] mod_shift(2) [of y] by (simp add: algebra_simps)
  have c: "(y + 1 - 1601) div 400 = (y - 1601) div 400 + (if y mod 400 = 0 then 1 else 0)"
    using div_succ [of 400 "y - 1601"] mod_shift(3) [of y] by (simp add: algebra_simps)
  show ?thesis
    unfolding DayFromYear_def DaysInYear_def a b c
    using leap_divisors [of y] by auto
qed

lemma div_bounds:
  fixes x m :: int
  assumes "0 < m"
  shows "m * (x div m) \<le> x" and "x < m * (x div m) + m"
proof -
  have "x = m * (x div m) + x mod m" by simp
  moreover have "0 \<le> x mod m" "x mod m < m" using assms by simp_all
  ultimately show "m * (x div m) \<le> x" and "x < m * (x div m) + m" by linarith+
qed

lemma year_estimate_low:
  fixes q d a4 a100 a400 :: int
  assumes "4 * a4 \<le> q" "q - 32 < 100 * a100" "400 * a400 \<le> q + 368"
    "146097 * q \<le> 400 * d"
  shows "365 * (q - 1) + a4 - a100 + a400 \<le> d"
proof -
  have "400 * a4 \<le> 100 * q" using assms(1) by simp
  moreover have "4 * q - 128 < 400 * a100" using assms(2) by simp
  ultimately have "400 * (365 * (q - 1) + a4 - a100 + a400) < 400 * d"
    using assms(3,4) by simp
  then show ?thesis by simp
qed

lemma year_estimate_high:
  fixes q d b4 b100 b400 :: int
  assumes "q - 1 < 4 * b4" "100 * b100 \<le> q + 71" "q - 29 < 400 * b400"
    "400 * d < 146097 * q + 146097"
  shows "d < 365 * (q + 2) + b4 - b100 + b400"
proof -
  have "100 * q - 100 < 400 * b4" using assms(1) by simp
  moreover have "400 * b100 \<le> 4 * q + 284" using assms(2) by simp
  ultimately have "400 * d < 400 * (365 * (q + 2) + b4 - b100 + b400)"
    using assms(3,4) by simp
  then show ?thesis by simp
qed

lemma DayFromYear_estimate:
  fixes d :: int
  defines "q \<equiv> (400 * d) div 146097"
  shows "DayFromYear (1970 + q - 1) \<le> d" and "d < DayFromYear (1970 + q + 2)"
proof -
  have q1: "146097 * q \<le> 400 * d" and q2: "400 * d < 146097 * q + 146097"
    unfolding q_def using div_bounds [of 146097 "400 * d"] by simp_all
  have lo: "DayFromYear (1970 + q - 1)
      = 365 * (q - 1) + q div 4 - (q + 68) div 100 + (q + 368) div 400"
    by (simp add: DayFromYear_def add.commute)
  have hi: "DayFromYear (1970 + q + 2)
      = 365 * (q + 2) + (q + 3) div 4 - (q + 71) div 100 + (q + 371) div 400"
    by (simp add: DayFromYear_def add.commute)
  show "DayFromYear (1970 + q - 1) \<le> d"
    unfolding lo
    using div_bounds [of 4 q] div_bounds [of 100 "q + 68"] div_bounds [of 400 "q + 368"] q1
    by (intro year_estimate_low) simp_all
  show "d < DayFromYear (1970 + q + 2)"
    unfolding hi
    using div_bounds [of 4 "q + 3"] div_bounds [of 100 "q + 71"] div_bounds [of 400 "q + 371"] q2
    by (intro year_estimate_high) simp_all
qed

lemma YearFromTime_bounds:
  "DayFromYear (YearFromTime t) \<le> Day t \<and> Day t < DayFromYear (YearFromTime t + 1)"
proof -
  define d where "d = Day t"
  define y where "y = 1970 + (400 * d) div 146097"
  have lo: "DayFromYear (y - 1) \<le> d" and hi: "d < DayFromYear (y + 2)"
    using DayFromYear_estimate [of d] by (simp_all add: y_def)
  have yt: "YearFromTime t = (if DayFromYear (y + 1) \<le> d then y + 1
         else if d < DayFromYear y then y - 1 else y)"
    by (simp add: YearFromTime_def Let_def d_def y_def)
  have s: "y + 1 + 1 = y + 2" "y - 1 + 1 = y" by simp_all
  show ?thesis
    unfolding yt d_def [symmetric] using lo hi by (auto simp: s)
qed

lemma DaysInYear_cases: "DaysInYear y = 365 \<or> DaysInYear y = 366"
  by (simp add: DaysInYear_def)

lemma DayWithinYear_bounds:
  "0 \<le> DayWithinYear t \<and> DayWithinYear t < 365 + InLeapYear t"
proof -
  have "Day t < DayFromYear (YearFromTime t) + DaysInYear (YearFromTime t)"
    using YearFromTime_bounds [of t] DayFromYear_Suc [of "YearFromTime t"] by simp
  moreover have "DaysInYear (YearFromTime t) = 365 + InLeapYear t"
    using DaysInYear_cases [of "YearFromTime t"] by (auto simp: InLeapYear_def)
  ultimately show ?thesis
    using YearFromTime_bounds [of t] by (simp add: DayWithinYear_def)
qed

lemma InLeapYear_cases: "InLeapYear t = 0 \<or> InLeapYear t = 1"
  by (simp add: InLeapYear_def)

lemma MonthFromTime_bounds: "0 \<le> MonthFromTime t \<and> MonthFromTime t \<le> 11"
  by (simp add: MonthFromTime_def Let_def)

lemma DateFromTime_bounds: "1 \<le> DateFromTime t \<and> DateFromTime t \<le> 31"
proof -
  define d where "d = DayWithinYear t"
  define l where "l = InLeapYear t"
  have b: "0 \<le> d" "d < 365 + l" "l = 0 \<or> l = 1"
    using DayWithinYear_bounds [of t] InLeapYear_cases [of t] by (simp_all add: d_def l_def)
  have m: "MonthFromTime t =
      (if d < 31 then 0 else if d < 59 + l then 1 else if d < 90 + l then 2
       else if d < 120 + l then 3 else if d < 151 + l then 4 else if d < 181 + l then 5
       else if d < 212 + l then 6 else if d < 243 + l then 7 else if d < 273 + l then 8
       else if d < 304 + l then 9 else if d < 334 + l then 10 else 11)"
    by (simp add: MonthFromTime_def Let_def d_def l_def)
  have "DateFromTime t =
      (if d < 31 then d + 1 else if d < 59 + l then d - 30 else if d < 90 + l then d - 58 - l
       else if d < 120 + l then d - 89 - l else if d < 151 + l then d - 119 - l
       else if d < 181 + l then d - 150 - l else if d < 212 + l then d - 180 - l
       else if d < 243 + l then d - 211 - l else if d < 273 + l then d - 242 - l
       else if d < 304 + l then d - 272 - l else if d < 334 + l then d - 303 - l
       else d - 333 - l)"
    unfolding DateFromTime_def Let_def m d_def [symmetric] l_def [symmetric] by simp
  then show ?thesis using b by (auto split: if_splits)
qed

lemma clock_bounds:
  "0 \<le> HourFromTime t \<and> HourFromTime t < 24"
  "0 \<le> MinFromTime t \<and> MinFromTime t < 60"
  "0 \<le> SecFromTime t \<and> SecFromTime t < 60"
  "0 \<le> msFromTime t \<and> msFromTime t < 1000"
  by (simp_all add: HourFromTime_def MinFromTime_def SecFromTime_def msFromTime_def)

lemma YearFromTime_range:
  assumes "\<bar>t\<bar> \<le> 8640000000000000"
  shows "- 271822 \<le> YearFromTime t \<and> YearFromTime t \<le> 275761"
proof -
  define d where "d = Day t"
  define q where "q = (400 * d) div 146097"
  have d: "- 100000000 \<le> d" "d \<le> 100000000"
  proof -
    have "(- 8640000000000000) div msPerDay \<le> t div msPerDay"
      by (rule zdiv_mono1) (use assms in \<open>simp_all add: msPerDay_def\<close>)
    then show "- 100000000 \<le> d" by (simp add: d_def Day_def msPerDay_def)
    have "t div msPerDay \<le> 8640000000000000 div msPerDay"
      by (rule zdiv_mono1) (use assms in \<open>simp_all add: msPerDay_def\<close>)
    then show "d \<le> 100000000" by (simp add: d_def Day_def msPerDay_def)
  qed
  have q: "- 273791 \<le> q" "q \<le> 273790"
  proof -
    have "(400 * (- 100000000)) div 146097 \<le> (400 * d) div (146097::int)"
      by (rule zdiv_mono1) (use d in simp_all)
    then show "- 273791 \<le> q" by (simp add: q_def)
    have "(400 * d) div 146097 \<le> (400 * 100000000) div (146097::int)"
      by (rule zdiv_mono1) (use d in simp_all)
    then show "q \<le> 273790" by (simp add: q_def)
  qed
  have "YearFromTime t = 1970 + q + 1 \<or> YearFromTime t = 1970 + q - 1 \<or> YearFromTime t = 1970 + q"
    by (simp add: YearFromTime_def Let_def d_def q_def)
  then show ?thesis using q by auto
qed

lemma String_nat_length: "n < 10 ^ k \<Longrightarrow> 0 < k \<Longrightarrow> length (String_nat n) \<le> k"
proof (induction n arbitrary: k rule: String_nat.induct)
  case (1 n)
  show ?case
  proof (cases "n < 10")
    case True
    then show ?thesis using "1.prems" by (simp add: String_nat.simps [of n])
  next
    case False
    obtain j where k: "k = Suc j" using "1.prems" by (cases k) auto
    have j: "0 < j"
    proof (rule ccontr)
      assume "\<not> 0 < j"
      then show False using "1.prems" False k by simp
    qed
    have "n div 10 < 10 ^ j" using "1.prems" k by (simp add: less_mult_imp_div_less mult.commute)
    then have "length (String_nat (n div 10)) \<le> j"
      using "1.IH" [OF False _ j] by simp
    then show ?thesis using False k by (simp add: String_nat.simps [of n])
  qed
qed

lemma padStart_digits:
  assumes "n < 10 ^ k" "0 < k"
  shows "length (padStart k (CHR ''0'') (String_nat n)) = k"
    and "list_all is_digit (padStart k (CHR ''0'') (String_nat n))"
  using String_nat_length [OF assms] String_nat_digits [of n]
  by (auto simp: padStart_def is_digit_zero list_all_iff)

lemma list2: "length s = 2 \<Longrightarrow> \<exists>a b. s = [a, b]"
  by (auto simp: eval_nat_numeral length_Suc_conv)

lemma list3: "length s = 3 \<Longrightarrow> \<exists>a b c. s = [a, b, c]"
  by (auto simp: eval_nat_numeral length_Suc_conv)

lemma list4: "length s = 4 \<Longrightarrow> \<exists>a b c d. s = [a, b, c, d]"
  by (auto simp: eval_nat_numeral length_Suc_conv)

lemma list6: "length s = 6 \<Longrightarrow> \<exists>a b c d e f. s = [a, b, c, d, e, f]"
  by (auto simp: eval_nat_numeral length_Suc_conv)

lemma pad2_two_digits:
  assumes "0 \<le> n" "n < 100"
  shows "padStart 2 (CHR ''0'') (String_int n) = two_digits n"
proof (cases "n < 10")
  case True
  then have "nat n < 10" using assms by arith
  then show ?thesis
    using assms by (simp add: String_int_def String_nat.simps [of "nat n"] padStart_def
        two_digits_def digit_char_def)
next
  case False
  have "nat n div 10 < 10" "\<not> nat n < 10" using False assms by arith+
  then have "String_nat (nat n) = [digit_char (nat n div 10), digit_char (nat n mod 10)]"
    by (simp add: String_nat.simps [of "nat n"] String_nat.simps [of "nat n div 10"])
  then show ?thesis
    using assms by (simp add: String_int_def padStart_def two_digits_def)
qed

lemma two_digits_shape:
  assumes "0 \<le> n" "n < 100"
  shows "matches ''dd'' (two_digits n)"
proof -
  have "nat n div 10 < 10" using assms by arith
  then show ?thesis by (simp add: two_digits_def digit_char_is_digit)
qed

lemma pad3_shape:
  assumes "0 \<le> n" "n < 1000"
  shows "matches ''ddd'' (padStart 3 (CHR ''0'') (String_int n))"
proof -
  have "nat n < 1000" using assms by arith
  then have n: "nat n < 10 ^ 3" by simp
  have "length (padStart 3 (CHR ''0'') (String_nat (nat n))) = 3"
    by (rule padStart_digits(1) [OF n]) simp
  then obtain a b c where s: "padStart 3 (CHR ''0'') (String_nat (nat n)) = [a, b, c]"
    using list3 by blast
  have "list_all is_digit [a, b, c]"
    using padStart_digits(2) [OF n] s by simp
  then show ?thesis using assms s by (simp add: String_int_def)
qed

lemma year_digits_shape:
  assumes "- 999999 \<le> y" "y \<le> 999999"
  shows "if 0 \<le> y \<and> y \<le> 9999 then matches ''dddd'' (year_digits y)
         else if y < 0 then matches ''-dddddd'' (year_digits y)
         else matches ''+dddddd'' (year_digits y)"
proof (cases "0 \<le> y \<and> y \<le> 9999")
  case True
  then have "nat y < 10000" by arith
  then have n: "nat y < 10 ^ 4" by simp
  have "length (padStart 4 (CHR ''0'') (String_nat (nat y))) = 4"
    by (rule padStart_digits(1) [OF n]) simp
  then obtain a b c d where s: "padStart 4 (CHR ''0'') (String_nat (nat y)) = [a, b, c, d]"
    using list4 by blast
  have "list_all is_digit [a, b, c, d]"
    using padStart_digits(2) [OF n] s by simp
  then show ?thesis using True s by (simp add: year_digits_def)
next
  case False
  have "nat \<bar>y\<bar> < 1000000" using assms by arith
  then have n: "nat \<bar>y\<bar> < 10 ^ 6" by simp
  have "length (padStart 6 (CHR ''0'') (String_nat (nat \<bar>y\<bar>))) = 6"
    by (rule padStart_digits(1) [OF n]) simp
  then obtain a b c d e f where s: "padStart 6 (CHR ''0'') (String_nat (nat \<bar>y\<bar>)) = [a, b, c, d, e, f]"
    using list6 by blast
  have "list_all is_digit [a, b, c, d, e, f]"
    using padStart_digits(2) [OF n] s by simp
  then show ?thesis using False s by (auto simp: year_digits_def)
qed

lemma matches_append:
  "length p1 = length s1 \<Longrightarrow> matches (p1 @ p2) (s1 @ s2) \<longleftrightarrow> matches p1 s1 \<and> matches p2 s2"
  by (induction p1 s1 rule: list_induct2) auto

lemma matches_length: "matches p s \<Longrightarrow> length s = length p"
  by (induction p s rule: matches.induct) auto

lemma matches_cat: "matches p1 s1 \<Longrightarrow> matches p2 s2 \<Longrightarrow> matches (p1 @ p2) (s1 @ s2)"
  using matches_append [of p1 s1 p2 s2] matches_length [of p1 s1] by simp

lemma pad2_shape:
  assumes "0 \<le> n" "n < 100"
  shows "matches ''dd'' (padStart 2 (CHR ''0'') (String_int n))"
  using assms by (simp only: pad2_two_digits two_digits_shape)

lemma time_shape:
  "matches ''-dd-ddTdd:dd:dd.dddZ''
     (''-'' @ padStart 2 (CHR ''0'') (String_int (MonthFromTime t + 1)) @ ''-''
      @ padStart 2 (CHR ''0'') (String_int (DateFromTime t)) @ ''T''
      @ padStart 2 (CHR ''0'') (String_int (HourFromTime t)) @ '':''
      @ padStart 2 (CHR ''0'') (String_int (MinFromTime t)) @ '':''
      @ padStart 2 (CHR ''0'') (String_int (SecFromTime t)) @ ''.''
      @ padStart 3 (CHR ''0'') (String_int (msFromTime t)) @ ''Z'')"
proof -
  have p: "''-dd-ddTdd:dd:dd.dddZ''
      = ''-'' @ ''dd'' @ ''-'' @ ''dd'' @ ''T'' @ ''dd'' @ '':'' @ ''dd'' @ '':'' @ ''dd'' @ ''.'' @ ''ddd'' @ ''Z''"
    by simp
  have mo: "matches ''dd'' (padStart 2 (CHR ''0'') (String_int (MonthFromTime t + 1)))"
    using MonthFromTime_bounds [of t] by (intro pad2_shape) simp_all
  have da: "matches ''dd'' (padStart 2 (CHR ''0'') (String_int (DateFromTime t)))"
    using DateFromTime_bounds [of t] by (intro pad2_shape) simp_all
  have ho: "matches ''dd'' (padStart 2 (CHR ''0'') (String_int (HourFromTime t)))"
    using clock_bounds(1) [of t] by (intro pad2_shape) simp_all
  have mi: "matches ''dd'' (padStart 2 (CHR ''0'') (String_int (MinFromTime t)))"
    using clock_bounds(2) [of t] by (intro pad2_shape) simp_all
  have se: "matches ''dd'' (padStart 2 (CHR ''0'') (String_int (SecFromTime t)))"
    using clock_bounds(3) [of t] by (intro pad2_shape) simp_all
  have ms: "matches ''ddd'' (padStart 3 (CHR ''0'') (String_int (msFromTime t)))"
    using clock_bounds(4) [of t] by (intro pad3_shape) simp_all
  have l: "matches ''-'' ''-''" "matches ''T'' ''T''" "matches '':'' '':''" "matches ''.'' ''.''"
    "matches ''Z'' ''Z''"
    by simp_all
  show ?thesis
    unfolding p
    by (intro matches_cat mo da ho mi se ms l)
qed

lemma toISOString_shape:
  assumes "\<bar>t\<bar> \<le> 8640000000000000"
  shows "iso_utc_instant (toISOString t)"
proof -
  define rest where "rest = ''-'' @ padStart 2 (CHR ''0'') (String_int (MonthFromTime t + 1)) @ ''-''
      @ padStart 2 (CHR ''0'') (String_int (DateFromTime t)) @ ''T''
      @ padStart 2 (CHR ''0'') (String_int (HourFromTime t)) @ '':''
      @ padStart 2 (CHR ''0'') (String_int (MinFromTime t)) @ '':''
      @ padStart 2 (CHR ''0'') (String_int (SecFromTime t)) @ ''.''
      @ padStart 3 (CHR ''0'') (String_int (msFromTime t)) @ ''Z''"
  define y where "y = YearFromTime t"
  have iso: "toISOString t = year_digits y @ rest"
    by (simp add: toISOString_def rest_def y_def)
  have r: "matches ''-dd-ddTdd:dd:dd.dddZ'' rest"
    unfolding rest_def by (rule time_shape)
  have yr: "- 999999 \<le> y" "y \<le> 999999"
    using YearFromTime_range [OF assms] by (simp_all add: y_def)
  have p: "''dddd-dd-ddTdd:dd:dd.dddZ'' = ''dddd'' @ ''-dd-ddTdd:dd:dd.dddZ''"
    "''+dddddd-dd-ddTdd:dd:dd.dddZ'' = ''+dddddd'' @ ''-dd-ddTdd:dd:dd.dddZ''"
    "''-dddddd-dd-ddTdd:dd:dd.dddZ'' = ''-dddddd'' @ ''-dd-ddTdd:dd:dd.dddZ''"
    by simp_all
  consider "0 \<le> y \<and> y \<le> 9999" | "y < 0" | "9999 < y" by linarith
  then show ?thesis
  proof cases
    case 1
    then have "matches ''dddd'' (year_digits y)"
      using year_digits_shape [OF yr] by simp
    then have "matches ''dddd-dd-ddTdd:dd:dd.dddZ'' (toISOString t)"
      unfolding iso p(1) using r by (rule matches_cat)
    then show ?thesis by (simp only: iso_utc_instant_def simp_thms)
  next
    case 2
    then have "matches ''-dddddd'' (year_digits y)"
      using year_digits_shape [OF yr] by simp
    then have "matches ''-dddddd-dd-ddTdd:dd:dd.dddZ'' (toISOString t)"
      unfolding iso p(3) using r by (rule matches_cat)
    then show ?thesis by (simp only: iso_utc_instant_def simp_thms)
  next
    case 3
    then have "matches ''+dddddd'' (year_digits y)"
      using year_digits_shape [OF yr] by simp
    then have "matches ''+dddddd-dd-ddTdd:dd:dd.dddZ'' (toISOString t)"
      unfolding iso p(2) using r by (rule matches_cat)
    then show ?thesis by (simp only: iso_utc_instant_def simp_thms)
  qed
qed

lemma toISOString_nonempty: "toISOString t \<noteq> []"
  by (simp add: toISOString_def)

lemma new_Date_range: "new_Date parse s = Some t \<Longrightarrow> \<bar>t\<bar> \<le> 8640000000000000"
  by (auto simp: new_Date_def split: option.splits if_splits)

lemma getWindowRange_ok:
  assumes "start \<noteq> []" "end \<noteq> []" "new_Date parse start = Some a" "new_Date parse end = Some b"
  shows "getWindowRange parse start end = Inr (Some (toISOString a, toISOString b))"
  using assms by (simp add: getWindowRange_def)

lemma append_boats_window:
  "append_boats bs [] @ [(''t0'', x), (''t1'', y)] = window_query bs x y"
  by (simp add: append_boats_eq window_query_def)

lemma refreshStats_requests:
  assumes "getSelectedBoats st \<noteq> []"
    and "getWindowRange parse start end = Inr (Some (x, y))"
  shows "requests (fst (refreshStats parse expo server st start end))
     = [\<lparr>path = ''/stats'', search = window_query (getSelectedBoats st) x y @ [(''ref'', ''twd'')]\<rparr>]"
  using assms
  by (simp add: refreshStats_def getStats_twd window_query_def Let_def case_prod_beta
      split: sum.splits)

lemma refreshTracks_requests:
  assumes "getSelectedBoats st \<noteq> []"
    and "getWindowRange parse start end = Inr (Some (x, y))" and "x \<noteq> []" and "y \<noteq> []"
  shows "requests (fst (refreshTracks parse st start end))
     = [\<lparr>path = ''/tracks'', search = window_query (getSelectedBoats st) x y\<rparr>]"
  using assms
  by (simp add: refreshTracks_def getTracks_def truthy_string_def String_opt_def Let_def
      search_append_def append_boats_eq window_query_def)

lemma downloadCsv_request_plain:
  "downloadCsv_request \<lparr>p_boats = bs, p_t0 = Some x, p_t1 = Some y, p_ref = None, p_legId = None,
      p_downsample = None\<rparr> = \<lparr>path = ''/export/csv'', search = window_query bs x y\<rparr>"
  by (simp add: downloadCsv_request_def truthy_string_def String_opt_def search_append_def
      append_boats_eq window_query_def)

lemma downloadCsv_requests:
  assumes "getSelectedBoats st \<noteq> []"
    and "getWindowRange parse start end = Inr (Some (x, y))"
  shows "requests (fst (downloadCsv parse server st start end))
     = [\<lparr>path = ''/export/csv'', search = window_query (getSelectedBoats st) x y\<rparr>]"
  using assms
  by (simp add: downloadCsv_def downloadCsv_request_plain Let_def split: sum.splits)

lemma main_requests:
  assumes "sel \<noteq> []" "start \<noteq> []" "end \<noteq> []"
    and "new_Date parse start = Some a" "new_Date parse end = Some b"
  shows "requests (fst (main_refreshStats parse expo server sel bs start end))
     = [\<lparr>path = ''/stats'',
          search = window_query sel (toISOString a) (toISOString b) @ [(''ref'', ''twd'')]\<rparr>]"
    and "requests (fst (main_refreshTracks parse sel start end))
     = [\<lparr>path = ''/tracks'', search = window_query sel (toISOString a) (toISOString b)\<rparr>]"
    and "requests (fst (main_downloadCSV parse csv_server sel start end))
     = [\<lparr>path = ''/export/csv'', search = window_query sel (toISOString a) (toISOString b)\<rparr>]"
  using assms
  by (simp_all add: main_refreshStats_def main_refreshTracks_def main_downloadCSV_def main_iso_def
      Let_def search_append_def append_boats_eq window_query_def case_prod_beta
      split: sum.splits reply.splits)

lemma window_query_getAll:
  "getAll ''t0'' (window_query bs x y) = [x]" "getAll ''t1'' (window_query bs x y) = [y]"
  "getAll ''ref'' (window_query bs x y) = []"
  "getAll ''boats'' (window_query bs x y) = map String_int bs"
  "map fst (window_query bs x y) = replicate (length bs) ''boats'' @ [''t0'', ''t1'']"
  by (induction bs) (simp_all add: window_query_def getAll_def)

lemma time_within_day:
  fixes t :: int
  shows "t = Day t * msPerDay + HourFromTime t * 3600000 + MinFromTime t * 60000
      + SecFromTime t * 1000 + msFromTime t"
proof -
  define s where "s = t div 1000"
  define m where "m = s div 60"
  define h where "h = m div 60"
  have a: "t = s * 1000 + t mod 1000" by (simp add: s_def)
  have b: "s = m * 60 + s mod 60" by (simp add: m_def)
  have c: "m = h * 60 + m mod 60" by (simp add: h_def)
  have d: "h = (h div 24) * 24 + h mod 24" by simp
  have m': "m = t div 60000" by (simp add: m_def s_def div_mult2_eq [symmetric])
  have h': "h = t div 3600000" by (simp add: h_def m' div_mult2_eq [symmetric])
  have d': "h div 24 = t div 86400000" by (simp add: h' div_mult2_eq [symmetric])
  have "t = (t div 86400000) * 86400000 + (h mod 24) * 3600000 + (m mod 60) * 60000
      + (s mod 60) * 1000 + t mod 1000"
    using a b c d d' by linarith
  then show ?thesis
    by (simp add: Day_def msPerDay_def HourFromTime_def MinFromTime_def SecFromTime_def
        msFromTime_def h' [symmetric] m' [symmetric] s_def [symmetric])
qed

lemma day_from_fields:
  "Day t = DayFromYear (YearFromTime t) + month_start (MonthFromTime t + 1) (InLeapYear t)
      + DateFromTime t - 1"
proof -
  define d where "d = DayWithinYear t"
  define l where "l = InLeapYear t"
  have m: "MonthFromTime t =
      (if d < 31 then 0 else if d < 59 + l then 1 else if d < 90 + l then 2
       else if d < 120 + l then 3 else if d < 151 + l then 4 else if d < 181 + l then 5
       else if d < 212 + l then 6 else if d < 243 + l then 7 else if d < 273 + l then 8
       else if d < 304 + l then 9 else if d < 334 + l then 10 else 11)"
    by (simp add: MonthFromTime_def Let_def d_def l_def)
  have "DateFromTime t =
      (if d < 31 then d + 1 else if d < 59 + l then d - 30 else if d < 90 + l then d - 58 - l
       else if d < 120 + l then d - 89 - l else if d < 151 + l then d - 119 - l
       else if d < 181 + l then d - 150 - l else if d < 212 + l then d - 180 - l
       else if d < 243 + l then d - 211 - l else if d < 273 + l then d - 242 - l
       else if d < 304 + l then d - 272 - l else if d < 334 + l then d - 303 - l
       else d - 333 - l)"
    unfolding DateFromTime_def Let_def m d_def [symmetric] l_def [symmetric] by simp
  then have "month_start (MonthFromTime t + 1) l + DateFromTime t - 1 = d"
    unfolding m by (simp add: month_start_def)
  then show ?thesis
    by (simp add: d_def l_def DayWithinYear_def)
qed

lemma utc_time_fields:
  "utc_time (YearFromTime t) (MonthFromTime t + 1) (DateFromTime t) (HourFromTime t)
     (MinFromTime t) (SecFromTime t) (msFromTime t) = t"
  using time_within_day [of t] day_from_fields [of t]
  by (simp add: utc_time_def InLeapYear_def)

lemma read_nat_padStart: "read_nat (padStart k (CHR ''0'') (String_nat n)) = n"
  by (simp add: padStart_def read_nat_zeros read_nat_String_nat)

lemma read_pad:
  assumes "0 \<le> n"
  shows "int (read_nat (padStart k (CHR ''0'') (String_int n))) = n"
  using assms by (simp add: String_int_def read_nat_padStart)

lemma read_year_digits:
  assumes "- 999999 \<le> y" "y \<le> 999999"
  shows "read_year (year_digits y) = y"
proof (cases "0 \<le> y \<and> y \<le> 9999")
  case True
  then have "matches ''dddd'' (year_digits y)"
    using year_digits_shape [OF assms] by simp
  then obtain a b c d where s: "year_digits y = [a, b, c, d]" and a: "is_digit a"
    using matches_length [of "''dddd''" "year_digits y"] list4 [of "year_digits y"] by auto
  have "a \<noteq> CHR ''-'' \<and> a \<noteq> CHR ''+''" using a by (auto simp: is_digit_def)
  then have "read_year (year_digits y) = int (read_nat (year_digits y))"
    by (simp add: s read_year_def)
  then show ?thesis
    using True by (simp add: year_digits_def read_nat_padStart)
next
  case False
  then show ?thesis
    by (auto simp: year_digits_def read_year_def read_nat_padStart)
qed

lemma read_iso_toISOString:
  assumes "\<bar>t\<bar> \<le> 8640000000000000"
  shows "read_iso (toISOString t) = t"
proof -
  define Y where "Y = year_digits (YearFromTime t)"
  define M where "M = padStart 2 (CHR ''0'') (String_int (MonthFromTime t + 1))"
  define D where "D = padStart 2 (CHR ''0'') (String_int (DateFromTime t))"
  define H where "H = padStart 2 (CHR ''0'') (String_int (HourFromTime t))"
  define N where "N = padStart 2 (CHR ''0'') (String_int (MinFromTime t))"
  define S where "S = padStart 2 (CHR ''0'') (String_int (SecFromTime t))"
  define L where "L = padStart 3 (CHR ''0'') (String_int (msFromTime t))"
  have iso: "toISOString t = Y @ ''-'' @ M @ ''-'' @ D @ ''T'' @ H @ '':'' @ N @ '':'' @ S @ ''.'' @ L @ ''Z''"
    by (simp add: toISOString_def Y_def M_def D_def H_def N_def S_def L_def)
  have len: "length M = 2" "length D = 2" "length H = 2" "length N = 2" "length S = 2"
    "length L = 3"
    using MonthFromTime_bounds [of t] DateFromTime_bounds [of t] clock_bounds [of t]
      matches_length [OF pad2_shape, of "MonthFromTime t + 1"]
      matches_length [OF pad2_shape, of "DateFromTime t"]
      matches_length [OF pad2_shape, of "HourFromTime t"]
      matches_length [OF pad2_shape, of "MinFromTime t"]
      matches_length [OF pad2_shape, of "SecFromTime t"]
      matches_length [OF pad3_shape, of "msFromTime t"]
    by (simp_all add: M_def D_def H_def N_def S_def L_def)
  obtain m1 m2 where M: "M = [m1, m2]" using len(1) list2 by blast
  obtain d1 d2 where D: "D = [d1, d2]" using len(2) list2 by blast
  obtain h1 h2 where H: "H = [h1, h2]" using len(3) list2 by blast
  obtain n1 n2 where N: "N = [n1, n2]" using len(4) list2 by blast
  obtain s1 s2 where S: "S = [s1, s2]" using len(5) list2 by blast
  obtain l1 l2 l3 where L: "L = [l1, l2, l3]" using len(6) list3 by blast
  have v: "int (read_nat M) = MonthFromTime t + 1" "int (read_nat D) = DateFromTime t"
    "int (read_nat H) = HourFromTime t" "int (read_nat N) = MinFromTime t"
    "int (read_nat S) = SecFromTime t" "int (read_nat L) = msFromTime t"
    using MonthFromTime_bounds [of t] DateFromTime_bounds [of t] clock_bounds [of t]
    by (simp_all add: M_def D_def H_def N_def S_def L_def read_pad)
  have y: "read_year Y = YearFromTime t"
    unfolding Y_def using YearFromTime_range [OF assms] by (intro read_year_digits) simp_all
  have "read_iso (toISOString t)
      = utc_time (read_year Y) (int (read_nat M)) (int (read_nat D)) (int (read_nat H))
          (int (read_nat N)) (int (read_nat S)) (int (read_nat L))"
    unfolding iso M D H N S L by (simp add: read_iso_def)
  then show ?thesis
    unfolding v y by (simp add: utc_time_fields)
qed

text \<open>
  C5: with boats selected and two picker values that the browser reads as dates, each of
  the stats, tracks and export actions of both clients sends one request, whose \<open>t0\<close> and
  \<open>t1\<close> are \<open>toISOString\<close> of the two dates; these strings are ISO 8601 instants in UTC,
  and read back they denote the instants of the two dates.
\<close>

theorem window_bounds_iso_instants:
  assumes "getSelectedBoats st \<noteq> []" and "start \<noteq> []" and "end \<noteq> []"
    and "new_Date parse start = Some a" and "new_Date parse end = Some b"
  shows "requests (fst (refreshStats parse expo stats_server st start end))
           = [\<lparr>path = ''/stats'',
                search = window_query (getSelectedBoats st) (toISOString a) (toISOString b)
                  @ [(''ref'', ''twd'')]\<rparr>]
       \<and> requests (fst (refreshTracks parse st start end))
           = [\<lparr>path = ''/tracks'',
                search = window_query (getSelectedBoats st) (toISOString a) (toISOString b)\<rparr>]
       \<and> requests (fst (downloadCsv parse csv_server st start end))
           = [\<lparr>path = ''/export/csv'',
                search = window_query (getSelectedBoats st) (toISOString a) (toISOString b)\<rparr>]
       \<and> requests (fst (main_refreshStats parse expo stats_server (getSelectedBoats st) bs start end))
           = [\<lparr>path = ''/stats'',
                search = window_query (getSelectedBoats st) (toISOString a) (toISOString b)
                  @ [(''ref'', ''twd'')]\<rparr>]
       \<and> requests (fst (main_refreshTracks parse (getSelectedBoats st) start end))
           = [\<lparr>path = ''/tracks'',
                search = window_query (getSelectedBoats st) (toISOString a) (toISOString b)\<rparr>]
       \<and> requests (fst (main_downloadCSV parse csv_server (getSelectedBoats st) start end))
           = [\<lparr>path = ''/export/csv'',
                search = window_query (getSelectedBoats st) (toISOString a) (toISOString b)\<rparr>]
       \<and> getAll ''t0'' (window_query (getSelectedBoats st) (toISOString a) (toISOString b))
           = [toISOString a]
       \<and> getAll ''t1'' (window_query (getSelectedBoats st) (toISOString a) (toISOString b))
           = [toISOString b]
       \<and> iso_utc_instant (toISOString a)
       \<and> iso_utc_instant (toISOString b)
       \<and> read_iso (toISOString a) = a
       \<and> read_iso (toISOString b) = b"
proof -
  have w: "getWindowRange parse start end = Inr (Some (toISOString a, toISOString b))"
    using assms(2-5) by (rule getWindowRange_ok)
  note m = main_requests(1) [OF assms, of expo stats_server bs] main_requests(2) [OF assms]
    main_requests(3) [OF assms, of csv_server]
  show ?thesis
    using refreshStats_requests [OF assms(1) w, of expo stats_server]
      refreshTracks_requests [OF assms(1) w toISOString_nonempty toISOString_nonempty]
      downloadCsv_requests [OF assms(1) w, of csv_server]
      m window_query_getAll(1,2)
      toISOString_shape [OF new_Date_range [OF assms(4)]]
      toISOString_shape [OF new_Date_range [OF assms(5)]]
      read_iso_toISOString [OF new_Date_range [OF assms(4)]]
      read_iso_toISOString [OF new_Date_range [OF assms(5)]]
    by simp
qed

lemma example_dates:
  "new_Date example_parse ''2024-05-01T10:00'' = Some 1714550400000"
  "new_Date example_parse ''2024-05-01T10:05'' = Some 1714550700000"
  "toISOString 1714550400000 = ''2024-05-01T08:00:00.000Z''"
  "toISOString 1714550700000 = ''2024-05-01T08:05:00.000Z''"
  by code_simp+

lemma example_query:
  "window_query [3, 5] ''2024-05-01T08:00:00.000Z'' ''2024-05-01T08:05:00.000Z''
     = [(''boats'', ''3''), (''boats'', ''5''), (''t0'', ''2024-05-01T08:00:00.000Z''),
        (''t1'', ''2024-05-01T08:05:00.000Z'')]"
  by (simp add: window_query_def example_ids)

theorem window_bounds_iso_instants_witness:
  "getSelectedBoats example_state = [3, 5]
   \<and> new_Date example_parse ''2024-05-01T10:00'' = Some 1714550400000
   \<and> new_Date example_parse ''2024-05-01T10:05'' = Some 1714550700000
   \<and> requests (fst (refreshStats example_parse example_expo example_stats_server example_state
         ''2024-05-01T10:00'' ''2024-05-01T10:05''))
       = [\<lparr>path = ''/stats'',
            search = [(''boats'', ''3''), (''boats'', ''5''), (''t0'', ''2024-05-01T08:00:00.000Z''),
              (''t1'', ''2024-05-01T08:05:00.000Z''), (''ref'', ''twd'')]\<rparr>]
   \<and> requests (fst (refreshTracks example_parse example_state
         ''2024-05-01T10:00'' ''2024-05-01T10:05''))
       = [\<lparr>path = ''/tracks'',
            search = [(''boats'', ''3''), (''boats'', ''5''), (''t0'', ''2024-05-01T08:00:00.000Z''),
              (''t1'', ''2024-05-01T08:05:00.000Z'')]\<rparr>]
   \<and> requests (fst (main_downloadCSV example_parse example_csv_server [3, 5]
         ''2024-05-01T10:00'' ''2024-05-01T10:05''))
       = [\<lparr>path = ''/export/csv'',
            search = [(''boats'', ''3''), (''boats'', ''5''), (''t0'', ''2024-05-01T08:00:00.000Z''),
              (''t1'', ''2024-05-01T08:05:00.000Z'')]\<rparr>]
   \<and> iso_utc_instant ''2024-05-01T08:00:00.000Z''
   \<and> iso_utc_instant ''2024-05-01T08:05:00.000Z''
   \<and> read_iso ''2024-05-01T08:00:00.000Z'' = 1714550400000
   \<and> read_iso ''2024-05-01T08:05:00.000Z'' = 1714550700000"
proof -
  have sel: "getSelectedBoats example_state \<noteq> []" by (simp add: example_selection)
  have s: "''2024-05-01T10:00'' \<noteq> []" "''2024-05-01T10:05'' \<noteq> []" by simp_all
  note t = window_bounds_iso_instants [OF sel s example_dates(1,2),
      of example_expo example_stats_server example_csv_server "[]"]
  show ?thesis
    using t example_dates(1,2)
    by (simp add: example_selection example_dates(3,4) example_query)
qed

lemma downloadCsv_request_ref:
  "getAll ''ref'' (search (downloadCsv_request p))
     = (if truthy_string (p_ref p) then [String_opt (p_ref p)] else [])"
  by (simp add: downloadCsv_request_def Let_def append_boats_eq search_append_def getAll_append)
    (simp add: getAll_def)

lemma example_csv_requests:
  "requests (fst (downloadCsv example_parse example_csv_server example_state
       ''2024-05-01T10:00'' ''2024-05-01T10:05''))
     = [\<lparr>path = ''/export/csv'',
          search = [(''boats'', ''3''), (''boats'', ''5''), (''t0'', ''2024-05-01T08:00:00.000Z''),
            (''t1'', ''2024-05-01T08:05:00.000Z'')]\<rparr>]"
proof -
  have sel: "getSelectedBoats example_state \<noteq> []" by (simp add: example_selection)
  show ?thesis
    using downloadCsv_requests [OF sel example_window, of example_csv_server]
    by (simp add: example_selection example_query)
qed

text \<open>
  C3 as stated fails: with boats 3 and 5 selected and a window that the browser reads, the
  export request has the entries \<open>boats\<close>, \<open>boats\<close>, \<open>t0\<close>, \<open>t1\<close> and no \<open>ref\<close>.
\<close>

theorem csv_request_without_ref:
  "requests (fst (downloadCsv example_parse example_csv_server example_state
       ''2024-05-01T10:00'' ''2024-05-01T10:05''))
     = [\<lparr>path = ''/export/csv'',
          search = [(''boats'', ''3''), (''boats'', ''5''), (''t0'', ''2024-05-01T08:00:00.000Z''),
            (''t1'', ''2024-05-01T08:05:00.000Z'')]\<rparr>]
   \<and> ''ref'' \<notin> set (map fst [(''boats'', ''3''), (''boats'', ''5''),
          (''t0'', ''2024-05-01T08:00:00.000Z''), (''t1'', ''2024-05-01T08:05:00.000Z'')])"
  using example_csv_requests by simp

text \<open>
  C3 amended: for a selection that is not empty and a window that the browser reads, the
  export action of either client sends one request, which carries one \<open>boats\<close> entry per
  selected boat in selection order, then \<open>t0\<close> and \<open>t1\<close>, and no \<open>ref\<close>;
  \<open>ApiClient.downloadCsv\<close> sends a \<open>ref\<close> only when its caller passes one that is not empty,
  and \<open>UIController.downloadCsv\<close> passes none.
\<close>

theorem csv_request_parameters:
  assumes "getSelectedBoats st \<noteq> []" and "start \<noteq> []" and "end \<noteq> []"
    and "new_Date parse start = Some a" and "new_Date parse end = Some b"
    and "q = window_query (getSelectedBoats st) (toISOString a) (toISOString b)"
  shows "requests (fst (downloadCsv parse server st start end)) = [\<lparr>path = ''/export/csv'', search = q\<rparr>]
       \<and> requests (fst (main_downloadCSV parse server (getSelectedBoats st) start end))
           = [\<lparr>path = ''/export/csv'', search = q\<rparr>]
       \<and> map fst q = replicate (length (getSelectedBoats st)) ''boats'' @ [''t0'', ''t1'']
       \<and> getAll ''boats'' q = map String_int (getSelectedBoats st)
       \<and> getAll ''t0'' q = [toISOString a]
       \<and> getAll ''t1'' q = [toISOString b]
       \<and> getAll ''ref'' q = []
       \<and> getAll ''ref'' (search (downloadCsv_request p))
           = (if truthy_string (p_ref p) then [String_opt (p_ref p)] else [])"
proof -
  have w: "getWindowRange parse start end = Inr (Some (toISOString a, toISOString b))"
    using assms(2-5) by (rule getWindowRange_ok)
  show ?thesis
    unfolding assms(6)
    using downloadCsv_requests [OF assms(1) w, of server]
      main_requests(3) [OF assms(1-5), of server]
      window_query_getAll [of "getSelectedBoats st" "toISOString a" "toISOString b"]
      downloadCsv_request_ref [of p]
    by simp
qed

theorem csv_request_parameters_witness:
  "getSelectedBoats example_state = [3, 5]
   \<and> new_Date example_parse ''2024-05-01T10:00'' = Some 1714550400000
   \<and> new_Date example_parse ''2024-05-01T10:05'' = Some 1714550700000
   \<and> requests (fst (downloadCsv example_parse example_csv_server example_state
         ''2024-05-01T10:00'' ''2024-05-01T10:05''))
       = [\<lparr>path = ''/export/csv'',
            search = [(''boats'', ''3''), (''boats'', ''5''), (''t0'', ''2024-05-01T08:00:00.000Z''),
              (''t1'', ''2024-05-01T08:05:00.000Z'')]\<rparr>]
   \<and> requests (fst (main_downloadCSV example_parse example_csv_server [3, 5]
         ''2024-05-01T10:00'' ''2024-05-01T10:05''))
       = [\<lparr>path = ''/export/csv'',
            search = [(''boats'', ''3''), (''boats'', ''5''), (''t0'', ''2024-05-01T08:00:00.000Z''),
              (''t1'', ''2024-05-01T08:05:00.000Z'')]\<rparr>]
   \<and> getAll ''ref'' [(''boats'', ''3''), (''boats'', ''5''), (''t0'', ''2024-05-01T08:00:00.000Z''),
              (''t1'', ''2024-05-01T08:05:00.000Z'')] = []"
proof -
  have sel: "getSelectedBoats example_state \<noteq> []" by (simp add: example_selection)
  have s: "''2024-05-01T10:00'' \<noteq> []" "''2024-05-01T10:05'' \<noteq> []" by simp_all
  note t = csv_request_parameters [OF sel s example_dates(1,2) refl, of example_csv_server]
  show ?thesis
    using t example_dates(1,2)
    by (simp add: example_selection example_dates(3,4) example_query)
qed

lemma downloads_named:
  "Download f c \<in> set (fst (downloadCsv parse server st start end)) \<Longrightarrow> f = ''window_stats.csv''"
  "Download f c \<in> set (fst (main_downloadCSV parse server sel start end)) \<Longrightarrow> f = ''window_stats.csv''"
  by (auto simp: downloadCsv_def main_downloadCSV_def Let_def
      split: sum.splits option.splits if_splits prod.splits reply.splits)

text \<open>
  C4: an export that the server answers with a file ends in one download, under the name
  \<open>window_stats.csv\<close>, in both clients; and no input makes either client download under
  another name.
\<close>

theorem csv_download_filename:
  assumes "getSelectedBoats (st :: 'h app_state) \<noteq> []" and "start \<noteq> []" and "end \<noteq> []"
    and "new_Date parse start = Some a" and "new_Date parse end = Some b"
    and "req = \<lparr>path = ''/export/csv'',
           search = window_query (getSelectedBoats st) (toISOString a) (toISOString b)\<rparr>"
    and "server req = Ok_body blob"
  shows "downloadCsv parse server st start end
           = ([Fetch req, Download ''window_stats.csv'' blob], None)
       \<and> main_downloadCSV parse server (getSelectedBoats st) start end
           = ([Fetch req, Download ''window_stats.csv'' blob], None)
       \<and> (\<forall>f c parse' server' st' start' end'.
             Download f c \<in> set (fst (downloadCsv parse' server' (st' :: 'h app_state) start' end'))
             \<longrightarrow> f = ''window_stats.csv'')
       \<and> (\<forall>f c parse' server' sel' start' end'.
             Download f c \<in> set (fst (main_downloadCSV parse' server' sel' start' end'))
             \<longrightarrow> f = ''window_stats.csv'')"
proof -
  have w: "getWindowRange parse start end = Inr (Some (toISOString a, toISOString b))"
    using assms(2-5) by (rule getWindowRange_ok)
  have u: "downloadCsv parse server st start end
           = ([Fetch req, Download ''window_stats.csv'' blob], None)"
    using assms(1,6,7) w
    by (simp add: downloadCsv_def downloadCsv_request_plain downloadCsv_response_def)
  have m: "main_downloadCSV parse server (getSelectedBoats st) start end
           = ([Fetch req, Download ''window_stats.csv'' blob], None)"
    using assms
    by (simp add: main_downloadCSV_def main_iso_def search_append_def append_boats_eq
        window_query_def)
  show ?thesis
    using u m downloads_named by blast
qed

theorem csv_download_filename_witness:
  "getSelectedBoats example_state = [3, 5]
   \<and> new_Date example_parse ''2024-05-01T10:00'' = Some 1714550400000
   \<and> new_Date example_parse ''2024-05-01T10:05'' = Some 1714550700000
   \<and> downloadCsv example_parse example_csv_server example_state
         ''2024-05-01T10:00'' ''2024-05-01T10:05''
       = ([Fetch \<lparr>path = ''/export/csv'',
            search = [(''boats'', ''3''), (''boats'', ''5''), (''t0'', ''2024-05-01T08:00:00.000Z''),
              (''t1'', ''2024-05-01T08:05:00.000Z'')]\<rparr>,
           Download ''window_stats.csv'' ''boat,avg_sog''], None)
   \<and> Download ''window_stats.csv'' ''boat,avg_sog''
       \<in> set (fst (downloadCsv example_parse example_csv_server example_state
             ''2024-05-01T10:00'' ''2024-05-01T10:05''))"
proof -
  have sel: "getSelectedBoats example_state \<noteq> []" by (simp add: example_selection)
  have s: "''2024-05-01T10:00'' \<noteq> []" "''2024-05-01T10:05'' \<noteq> []" by simp_all
  have ans: "example_csv_server \<lparr>path = ''/export/csv'',
           search = window_query (getSelectedBoats example_state) (toISOString 1714550400000)
             (toISOString 1714550700000)\<rparr> = Ok_body ''boat,avg_sog''"
    by (simp add: example_csv_server_def)
  note t = csv_download_filename [where server = example_csv_server,
      OF sel s example_dates(1,2) refl ans]
  have d: "downloadCsv example_parse example_csv_server example_state
         ''2024-05-01T10:00'' ''2024-05-01T10:05''
       = ([Fetch \<lparr>path = ''/export/csv'',
            search = [(''boats'', ''3''), (''boats'', ''5''), (''t0'', ''2024-05-01T08:00:00.000Z''),
              (''t1'', ''2024-05-01T08:05:00.000Z'')]\<rparr>,
           Download ''window_stats.csv'' ''boat,avg_sog''], None)"
    using t [THEN conjunct1] by (simp add: example_selection example_dates(3,4) example_query)
  show ?thesis
    using d example_dates(1,2) by (simp add: example_selection)
qed

lemma String_nat_length_ge: "10 ^ k \<le> n \<Longrightarrow> k < length (String_nat n)"
proof (induction n arbitrary: k rule: String_nat.induct)
  case (1 n)
  show ?case
  proof (cases k)
    case 0
    then show ?thesis using String_nat_nonempty [of n] by simp
  next
    case (Suc j)
    then have big: "\<not> n < 10"
    proof -
      have "(10::nat) ^ 1 \<le> 10 ^ k" using Suc by (intro power_increasing) simp_all
      then show ?thesis using "1.prems" by simp
    qed
    have "10 ^ j \<le> n div 10"
      using "1.prems" Suc by (simp add: less_eq_div_iff_mult_less_eq mult.commute)
    then have "j < length (String_nat (n div 10))"
      using "1.IH" [OF big] by simp
    then show ?thesis using big Suc by (simp add: String_nat.simps [of n])
  qed
qed

lemma year_four_digits:
  assumes "1000 \<le> y" "y \<le> 9999"
  shows "matches ''dddd'' (String_int y)"
proof -
  have "nat y < 10000" "1000 \<le> nat y" using assms by arith+
  then have n: "nat y < 10 ^ 4" "10 ^ 3 \<le> nat y" by simp_all
  have "length (String_nat (nat y)) \<le> 4"
    by (rule String_nat_length [OF n(1)]) simp
  moreover have "3 < length (String_nat (nat y))"
    by (rule String_nat_length_ge [OF n(2)])
  ultimately have "length (String_nat (nat y)) = 4" by simp
  then obtain a b c d where s: "String_nat (nat y) = [a, b, c, d]"
    using list4 by blast
  have "list_all is_digit [a, b, c, d]"
    using String_nat_digits [of "nat y"] s by simp
  then show ?thesis using assms s by (simp add: String_int_def)
qed

lemma local_fields:
  "1 \<le> getMonth tza t + 1 \<and> getMonth tza t + 1 \<le> 12"
  "1 \<le> getDate tza t \<and> getDate tza t \<le> 31"
  "0 \<le> getHours tza t \<and> getHours tza t < 24"
  "0 \<le> getMinutes tza t \<and> getMinutes tza t < 60"
  using MonthFromTime_bounds [of "LocalTime tza t"] DateFromTime_bounds [of "LocalTime tza t"]
    clock_bounds(1,2) [of "LocalTime tza t"]
  by (simp_all add: getMonth_def getDate_def getHours_def getMinutes_def)

lemma formatDateTimeLocal_valid:
  assumes "s \<noteq> []" "new_Date parse s = Some t"
  shows "formatDateTimeLocal parse tza (Str s)
     = String_int (getFullYear tza t) @ ''-'' @ two_digits (getMonth tza t + 1) @ ''-''
       @ two_digits (getDate tza t) @ ''T'' @ two_digits (getHours tza t) @ '':''
       @ two_digits (getMinutes tza t)"
proof -
  have "padStart 2 (CHR ''0'') (String_int (getMonth tza t + 1)) = two_digits (getMonth tza t + 1)"
    "padStart 2 (CHR ''0'') (String_int (getDate tza t)) = two_digits (getDate tza t)"
    "padStart 2 (CHR ''0'') (String_int (getHours tza t)) = two_digits (getHours tza t)"
    "padStart 2 (CHR ''0'') (String_int (getMinutes tza t)) = two_digits (getMinutes tza t)"
    using local_fields [of tza t] by (simp_all add: pad2_two_digits)
  then show ?thesis
    using assms by (simp add: formatDateTimeLocal_def Let_def)
qed

lemma local_tail_shape:
  "matches ''-dd-ddTdd:dd''
     (''-'' @ two_digits (getMonth tza t + 1) @ ''-'' @ two_digits (getDate tza t) @ ''T''
      @ two_digits (getHours tza t) @ '':'' @ two_digits (getMinutes tza t))"
proof -
  have p: "''-dd-ddTdd:dd'' = ''-'' @ ''dd'' @ ''-'' @ ''dd'' @ ''T'' @ ''dd'' @ '':'' @ ''dd''"
    by simp
  have f: "matches ''dd'' (two_digits (getMonth tza t + 1))"
    "matches ''dd'' (two_digits (getDate tza t))"
    "matches ''dd'' (two_digits (getHours tza t))"
    "matches ''dd'' (two_digits (getMinutes tza t))"
    using local_fields [of tza t] by (simp_all add: two_digits_shape)
  have l: "matches ''-'' ''-''" "matches ''T'' ''T''" "matches '':'' '':''"
    by simp_all
  show ?thesis
    unfolding p by (intro matches_cat f l)
qed

lemma example_early_year:
  "new_Date example_parse ''0999-06-15T12:00:00.000Z'' = Some (- 30627460800000)"
  "toISOString (- 30627460800000) = ''0999-06-15T12:00:00.000Z''"
  "formatDateTimeLocal example_parse example_zone (Str ''0999-06-15T12:00:00.000Z'')
     = ''999-06-15T14:00''"
  by code_simp+

text \<open>
  C10 as stated fails: the ISO string of a date in the year 999 is read as a valid date,
  and the result starts with the three digits of the year, so it has not the form
  \<open>YYYY-MM-DDTHH:MM\<close>.
\<close>

theorem formatDateTimeLocal_early_year:
  "new_Date example_parse ''0999-06-15T12:00:00.000Z'' = Some (- 30627460800000)
   \<and> formatDateTimeLocal example_parse example_zone (Str ''0999-06-15T12:00:00.000Z'')
       = ''999-06-15T14:00''
   \<and> \<not> matches ''dddd-dd-ddTdd:dd'' ''999-06-15T14:00''"
  using example_early_year(1,3) by (simp add: is_digit_def)

text \<open>
  C10 amended: \<open>formatDateTimeLocal\<close> returns a string for every input. It is empty for
  \<open>null\<close>, \<open>undefined\<close>, the empty string and every string that is not read as a valid date.
  For a string that is, it is the local year in decimal without padding (with a minus
  sign before year 0), then \<open>-MM-DDTHH:MM\<close> with month, day, hour and minute of the local
  time, each in two digits with a leading zero where needed; it has the form
  \<open>YYYY-MM-DDTHH:MM\<close> when the local year is from 1000 to 9999.
\<close>

theorem formatDateTimeLocal_total:
  "formatDateTimeLocal parse tza Null = []
   \<and> formatDateTimeLocal parse tza Undefined = []
   \<and> formatDateTimeLocal parse tza (Str []) = []
   \<and> (new_Date parse s = None \<longrightarrow> formatDateTimeLocal parse tza (Str s) = [])
   \<and> (s \<noteq> [] \<and> new_Date parse s = Some t \<longrightarrow>
        formatDateTimeLocal parse tza (Str s)
          = String_int (getFullYear tza t) @ ''-'' @ two_digits (getMonth tza t + 1) @ ''-''
            @ two_digits (getDate tza t) @ ''T'' @ two_digits (getHours tza t) @ '':''
            @ two_digits (getMinutes tza t)
        \<and> 1 \<le> getMonth tza t + 1 \<and> getMonth tza t + 1 \<le> 12
        \<and> 1 \<le> getDate tza t \<and> getDate tza t \<le> 31
        \<and> 0 \<le> getHours tza t \<and> getHours tza t < 24
        \<and> 0 \<le> getMinutes tza t \<and> getMinutes tza t < 60
        \<and> matches ''-dd-ddTdd:dd''
            (drop (length (String_int (getFullYear tza t))) (formatDateTimeLocal parse tza (Str s)))
        \<and> (1000 \<le> getFullYear tza t \<and> getFullYear tza t \<le> 9999 \<longrightarrow>
              matches ''dddd-dd-ddTdd:dd'' (formatDateTimeLocal parse tza (Str s))))"
proof -
  have e: "formatDateTimeLocal parse tza Null = []" "formatDateTimeLocal parse tza Undefined = []"
    "formatDateTimeLocal parse tza (Str []) = []"
    by (simp_all add: formatDateTimeLocal_def)
  have i: "new_Date parse s = None \<Longrightarrow> formatDateTimeLocal parse tza (Str s) = []"
    by (simp add: formatDateTimeLocal_def)
  have v: "formatDateTimeLocal parse tza (Str s)
          = String_int (getFullYear tza t) @ ''-'' @ two_digits (getMonth tza t + 1) @ ''-''
            @ two_digits (getDate tza t) @ ''T'' @ two_digits (getHours tza t) @ '':''
            @ two_digits (getMinutes tza t)"
    if "s \<noteq> []" "new_Date parse s = Some t"
    using that by (rule formatDateTimeLocal_valid)
  have tl: "matches ''-dd-ddTdd:dd''
            (drop (length (String_int (getFullYear tza t))) (formatDateTimeLocal parse tza (Str s)))"
    if "s \<noteq> []" "new_Date parse s = Some t"
    unfolding v [OF that] using local_tail_shape [of tza t] by simp
  have full: "matches ''dddd-dd-ddTdd:dd'' (formatDateTimeLocal parse tza (Str s))"
    if "s \<noteq> []" "new_Date parse s = Some t" "1000 \<le> getFullYear tza t" "getFullYear tza t \<le> 9999"
  proof -
    have p: "''dddd-dd-ddTdd:dd'' = ''dddd'' @ ''-dd-ddTdd:dd''" by simp
    show ?thesis
      unfolding v [OF that(1,2)] p
      using year_four_digits [OF that(3,4)] local_tail_shape [of tza t]
      by (rule matches_cat)
  qed
  show ?thesis
    using e i v tl full local_fields [of tza t] by blast
qed

lemma example_local:
  "new_Date example_parse ''2024-05-01T08:00:00.000Z'' = Some 1714550400000"
  "formatDateTimeLocal example_parse example_zone (Str ''2024-05-01T08:00:00.000Z'')
     = ''2024-05-01T10:00''"
  "getFullYear example_zone 1714550400000 = 2024"
  "new_Date example_parse ''yesterday'' = None"
  by code_simp+

theorem formatDateTimeLocal_total_witness:
  "new_Date example_parse ''yesterday'' = None
   \<and> formatDateTimeLocal example_parse example_zone (Str ''yesterday'') = []
   \<and> ''2024-05-01T08:00:00.000Z'' \<noteq> []
   \<and> new_Date example_parse ''2024-05-01T08:00:00.000Z'' = Some 1714550400000
   \<and> getFullYear example_zone 1714550400000 = 2024
   \<and> formatDateTimeLocal example_parse example_zone (Str ''2024-05-01T08:00:00.000Z'')
       = ''2024-05-01T10:00''
   \<and> matches ''dddd-dd-ddTdd:dd''
       (formatDateTimeLocal example_parse example_zone (Str ''2024-05-01T08:00:00.000Z''))"
proof -
  note a = formatDateTimeLocal_total [where parse = example_parse and tza = example_zone
      and s = "''yesterday''"]
  note b = formatDateTimeLocal_total [where parse = example_parse and tza = example_zone
      and s = "''2024-05-01T08:00:00.000Z''" and t = 1714550400000]
  have "formatDateTimeLocal example_parse example_zone (Str ''yesterday'') = []"
    using a example_local(4) by blast
  moreover have "matches ''dddd-dd-ddTdd:dd''
       (formatDateTimeLocal example_parse example_zone (Str ''2024-05-01T08:00:00.000Z''))"
  proof -
    have y: "1000 \<le> getFullYear example_zone 1714550400000
        \<and> getFullYear example_zone 1714550400000 \<le> 9999"
      by (simp add: example_local(3))
    have ne: "''2024-05-01T08:00:00.000Z'' \<noteq> []" by simp
    show ?thesis using b example_local(1) y ne by blast
  qed
  ultimately show ?thesis
    using example_local by simp
qed

end
